theory Spec2Isabelle
  imports Main "HOL-Library.Product_Lexorder" "HOL-Library.AList" "HOL-Library.Multiset"
begin

section \<open>Time\<close>

text \<open>
  The integration works with naive local \<open>datetime\<close> values (\<open>datetime.now()\<close>, and forecast
  start times whose zone is dropped with \<open>replace(tzinfo=None)\<close>). A naive datetime is
  modelled as its number of microseconds since midnight of day 0, a \<open>timedelta\<close> as a number
  of microseconds. Arithmetic on naive datetimes is plain integer arithmetic; the upper end
  of Python's datetime range (year 9999) is not modelled.
\<close>

type_synonym datetime = int
type_synonym timedelta = int

definition usec_per_second :: int where
  "usec_per_second = 1000000"

definition usec_per_hour :: int where
  "usec_per_hour = 3600 * usec_per_second"

definition usec_per_day :: int where
  "usec_per_day = 24 * usec_per_hour"

definition timedelta_hours :: "int \<Rightarrow> timedelta" where
  \<comment> \<open>\<open>timedelta(hours=h)\<close>\<close>
  "timedelta_hours h = h * usec_per_hour"

definition timedelta_days :: "int \<Rightarrow> timedelta" where
  \<comment> \<open>\<open>timedelta(days=d)\<close>\<close>
  "timedelta_days d = d * usec_per_day"

definition midnight :: "datetime \<Rightarrow> datetime" where
  \<comment> \<open>00:00:00.000000 of the calendar day of \<open>t\<close>\<close>
  "midnight t = (t div usec_per_day) * usec_per_day"

definition time_of_day :: "datetime \<Rightarrow> timedelta" where
  "time_of_day t = t mod usec_per_day"

definition replace_hour :: "datetime \<Rightarrow> int \<Rightarrow> datetime" where
  \<comment> \<open>\<open>t.replace(hour=h, minute=0, second=0, microsecond=0)\<close>: same date, time \<open>h\<close>:00\<close>
  "replace_hour t h = midnight t + timedelta_hours h"

definition timedelta_seconds :: "timedelta \<Rightarrow> int" where
  \<comment> \<open>the \<open>.seconds\<close> attribute of a timedelta: a timedelta is kept normalised as
      days, seconds in \<open>[0, 86400)\<close> and microseconds in \<open>[0, 1000000)\<close>\<close>
  "timedelta_seconds d = (d div usec_per_second) mod 86400"


section \<open>calculations.py\<close>

definition SIMPLE :: string where
  "SIMPLE = ''simple''"

definition PRECISE :: string where
  "PRECISE = ''precise''"

text \<open>
  One configured consumer, as \<open>get_consumer_config\<close> reads it with \<open>consumer[0].get(...)\<close>:
  a key that is absent reads as \<open>None\<close>. The fields carry the names of the local variables
  of \<open>get_consumer_config\<close>.
\<close>

record consumer_config =
  name :: string
  input_source :: "string option"
  output_source :: "string option"
  smart_energy_mode :: "string option"
  hours_to_charge :: "int option"
  charging_time_window_hours :: "int option"

text \<open>
  The per-consumer dictionary built by \<open>get_consumer_config\<close> and mutated by the coordinator
  (\<open>scheduler_data\<close> in state.py). The fields carry the names of the key constants of
  const.py; \<open>CHARGING_SCHEDULES_ENABLED\<close> is the nested \<open>charging_schedules.enabled\<close>.
\<close>

record scheduler_data =
  ENABLED :: bool
  CONF_INPUT_SOURCE :: "string option"
  CONF_OUTPUT_SOURCE :: "string option"
  CONF_SMART_ENERGY_MODE :: "string option"
  CURRENT_SCHEDULE_START :: "datetime option"
  CURRENT_SCHEDULE_END :: "datetime option"
  CURRENT_CYCLE_HOURS_TO_CHARGE :: "int option"
  CURRENT_CYCLE_CHARGING_TIME_WINDOW_HOURS :: "int option"
  CURRENT_CYCLE_CHARGING_TIME_WINDOW_DATE :: "datetime option"
  START_SCHEDULED_CHARGING :: bool
  CHARGING_SCHEDULES_ENABLED :: bool

definition calculate_next_time_window ::
  "datetime \<Rightarrow> string option \<Rightarrow> int option \<Rightarrow> datetime option" where
  \<comment> \<open>the first argument is the value of \<open>datetime.now()\<close>; \<open>not charging_time_window_hours\<close>
      holds for \<open>None\<close> and for 0\<close>
  "calculate_next_time_window now mode window_hours =
     (if mode = Some SIMPLE then Some (replace_hour now 7 + timedelta_days 1)
      else (case window_hours of
              None \<Rightarrow> None
            | Some w \<Rightarrow> if w = 0 then None else Some (now + timedelta_hours w)))"

definition calculate_time_window_hours :: "datetime \<Rightarrow> datetime option \<Rightarrow> int option" where
  \<comment> \<open>\<open>int((next_time_window - current_date).seconds / 3_600)\<close>: \<open>.seconds\<close> is a
      non-negative integer below 86400, so the truncated quotient is the integer quotient\<close>
  "calculate_time_window_hours now next_time_window =
     (case next_time_window of
        None \<Rightarrow> None
      | Some d \<Rightarrow> Some (timedelta_seconds (d - now) div 3600))"

definition consumer_record :: "datetime \<Rightarrow> consumer_config \<Rightarrow> scheduler_data" where
  \<comment> \<open>the dictionary \<open>get_consumer_config\<close> stores under the consumer's name\<close>
  "consumer_record now c =
     (let next_time_window =
            calculate_next_time_window now (smart_energy_mode c) (charging_time_window_hours c)
      in \<lparr> ENABLED = True,
           CONF_INPUT_SOURCE = input_source c,
           CONF_OUTPUT_SOURCE = output_source c,
           CONF_SMART_ENERGY_MODE = smart_energy_mode c,
           CURRENT_SCHEDULE_START = None,
           CURRENT_SCHEDULE_END = None,
           CURRENT_CYCLE_HOURS_TO_CHARGE =
             (if smart_energy_mode c = Some SIMPLE then Some 4 else hours_to_charge c),
           CURRENT_CYCLE_CHARGING_TIME_WINDOW_HOURS =
             (if smart_energy_mode c = Some SIMPLE
              then calculate_time_window_hours now next_time_window
              else charging_time_window_hours c),
           CURRENT_CYCLE_CHARGING_TIME_WINDOW_DATE = next_time_window,
           START_SCHEDULED_CHARGING = False,
           CHARGING_SCHEDULES_ENABLED = True \<rparr>)"

text \<open>
  A Python dict keeps its keys in insertion order, and storing under a key that is already
  present replaces the value in place: this is \<open>AList.update\<close> on an association list.
\<close>

fun get_consumer_config_loop ::
  "datetime \<Rightarrow> consumer_config list \<Rightarrow> (string \<times> scheduler_data) list
     \<Rightarrow> (string \<times> scheduler_data) list" where
  "get_consumer_config_loop now [] consumers = consumers"
| "get_consumer_config_loop now (c # cs) consumers =
     get_consumer_config_loop now cs (AList.update (name c) (consumer_record now c) consumers)"

definition get_consumer_config ::
  "datetime \<Rightarrow> consumer_config list \<Rightarrow> (string \<times> scheduler_data) list" where
  "get_consumer_config now configured_consumers =
     get_consumer_config_loop now configured_consumers []"


section \<open>controller.py\<close>

datatype error = TypeError | IndexError | KeyError | ServiceError

text \<open>
  A call of the controller: \<open>start_charging(hass, output_type, {"device_name": consumer})\<close>
  or \<open>stop_charging(...)\<close>, with the output type and the device name it was given.
\<close>

datatype command = Start "string option" string | Stop "string option" string

definition GO_E :: string where
  "GO_E = ''smartenergy_goecharger''"

text \<open>
  The part of the Home Assistant instance the coordinator works with:
  \<^item> \<open>FORECAST\<close>: the \<open>forecast\<close> attribute of \<open>sensor.smartenergy_awattar_forecast\<close>, each
    entry with its start time already parsed; \<open>None\<close> when the sensor or the attribute is
    missing;
  \<^item> \<open>car_status_states\<close>: the state of \<open>sensor.smartenergy_goecharger_<consumer>_car_status\<close>;
  \<^item> \<open>current_schedules_states\<close>: the \<open>schedules\<close> attribute of
    \<open>smartenergy.<consumer>_current_schedules\<close>;
  \<^item> \<open>service_raises\<close>: whether the blocking call \<open>hass.services.async_call(domain, service,
    {"device_name": d})\<close> raises (the service registry belongs to Home Assistant, so its
    behaviour is a parameter);
  \<^item> \<open>commands\<close>: the calls of the controller made so far, oldest first.
  The price of a forecast entry is a number; any linear order stands for it.
\<close>

record 'p forecast_entry =
  marketprice :: 'p
  start_time :: datetime

record 'p slot =
  VALUE :: 'p
  START_TIME :: datetime

record 'p hass =
  FORECAST :: "'p forecast_entry list option"
  car_status_states :: "string \<rightharpoonup> string"
  current_schedules_states :: "string \<rightharpoonup> 'p slot list"
  service_raises :: "string \<Rightarrow> string \<Rightarrow> string \<Rightarrow> bool"
  commands :: "command list"

definition start_charging ::
  "'p hass \<Rightarrow> string option \<Rightarrow> string \<Rightarrow> 'p hass \<times> error option" where
  \<comment> \<open>an output type other than go-e is answered with a logged error and a normal return\<close>
  "start_charging hass output_type device_name =
     (let hass' = hass\<lparr>commands := commands hass @ [Start output_type device_name]\<rparr>
      in if output_type = Some GO_E
         then (if service_raises hass GO_E ''start_charging'' device_name
               then (hass', Some ServiceError) else (hass', None))
         else (hass', None))"

definition stop_charging ::
  "'p hass \<Rightarrow> string option \<Rightarrow> string \<Rightarrow> 'p hass \<times> error option" where
  "stop_charging hass output_type device_name =
     (let hass' = hass\<lparr>commands := commands hass @ [Stop output_type device_name]\<rparr>
      in if output_type = Some GO_E
         then (if service_raises hass GO_E ''stop_charging'' device_name
               then (hass', Some ServiceError) else (hass', None))
         else (hass', None))"


section \<open>state.py\<close>

definition CAR_IS_CHARGING :: string where
  "CAR_IS_CHARGING = ''Car is charging''"

definition CHARGING_FINISHED :: string where
  "CHARGING_FINISHED = ''Charging finished, car can be disconnected''"

definition get_schedules :: "'p hass \<Rightarrow> string \<Rightarrow> 'p slot list" where
  "get_schedules hass consumer_name =
     (case current_schedules_states hass consumer_name of None \<Rightarrow> [] | Some schedules \<Rightarrow> schedules)"

definition set_schedules :: "'p hass \<Rightarrow> 'p slot list \<Rightarrow> string \<Rightarrow> 'p hass" where
  "set_schedules hass schedules consumer_name =
     hass\<lparr>current_schedules_states := (current_schedules_states hass)(consumer_name \<mapsto> schedules)\<rparr>"

text \<open>
  The loop of \<open>find_forecast_dates\<close>: comparing a start time with a deadline that is \<open>None\<close>
  raises \<open>TypeError\<close> at the first forecast entry.
\<close>

fun forecast_data_loop ::
  "datetime option \<Rightarrow> 'p forecast_entry list \<Rightarrow> 'p slot list \<Rightarrow> error + 'p slot list" where
  "forecast_data_loop end_date [] forecast_data = Inr forecast_data"
| "forecast_data_loop end_date (price # prices) forecast_data =
     (case end_date of
        None \<Rightarrow> Inl TypeError
      | Some d \<Rightarrow>
          if start_time price \<le> d
          then forecast_data_loop end_date prices
                 (forecast_data @ [\<lparr>VALUE = marketprice price, START_TIME = start_time price\<rparr>])
          else forecast_data_loop end_date prices forecast_data)"

definition slot_key :: "('p::linorder) slot \<Rightarrow> 'p \<times> datetime" where
  \<comment> \<open>\<open>itemgetter(VALUE, START_TIME)\<close>; tuples compare lexicographically\<close>
  "slot_key s = (VALUE s, START_TIME s)"

definition find_forecast_dates ::
  "('p::linorder) hass \<Rightarrow> datetime option \<Rightarrow> error + 'p slot list" where
  \<comment> \<open>\<open>sorted\<close> is a stable sort, as \<open>sort_key\<close> is\<close>
  "find_forecast_dates hass end_date =
     (case FORECAST hass of
        None \<Rightarrow> Inr []
      | Some prices \<Rightarrow>
          (case forecast_data_loop end_date prices [] of
             Inl e \<Rightarrow> Inl e
           | Inr forecast_data \<Rightarrow> Inr (sort_key slot_key forecast_data)))"

definition slice_from_start :: "'a list \<Rightarrow> int option \<Rightarrow> 'a list" where
  \<comment> \<open>the Python slice \<open>xs[0:stop:]\<close>: no limit for \<open>None\<close>, and a negative \<open>stop\<close> counts
      from the end of the list\<close>
  "slice_from_start xs stop =
     (case stop of
        None \<Rightarrow> xs
      | Some n \<Rightarrow> if n < 0 then take (nat (int (length xs) + n)) xs else take (nat n) xs)"

definition calculate_next_schedules ::
  "('p::linorder) hass \<Rightarrow> string \<Rightarrow> scheduler_data \<Rightarrow> string
     \<Rightarrow> 'p hass \<times> (error + 'p slot list)" where
  "calculate_next_schedules hass car_status scheduler_data consumer_name =
     (let schedules = get_schedules hass consumer_name
      in if (car_status \<noteq> CAR_IS_CHARGING \<and> \<not> START_SCHEDULED_CHARGING scheduler_data)
            \<or> schedules = []
         then (case find_forecast_dates hass
                      (CURRENT_CYCLE_CHARGING_TIME_WINDOW_DATE scheduler_data) of
                 Inl e \<Rightarrow> (hass, Inl e)
               | Inr forecast_time_range \<Rightarrow>
                   (let forecast_portion =
                          slice_from_start forecast_time_range
                            (CURRENT_CYCLE_HOURS_TO_CHARGE scheduler_data)
                    in (set_schedules hass forecast_portion consumer_name, Inr forecast_portion)))
         else (hass, Inr schedules))"

text \<open>
  The methods below mutate \<open>scheduler_data\<close> in place and may raise after part of their
  work is done; each returns the Home Assistant state and the dictionary as they are when
  it returns or raises, and the exception if there is one.
\<close>

definition start_scheduled_charging ::
  "'p hass \<Rightarrow> scheduler_data \<Rightarrow> string \<Rightarrow> 'p slot list
     \<Rightarrow> 'p hass \<times> scheduler_data \<times> error option" where
  "start_scheduled_charging hass scheduler_data consumer schedules =
     (case schedules of
        [] \<Rightarrow> (hass, scheduler_data, Some IndexError)
      | s # rest \<Rightarrow>
          (let sd1 = scheduler_data\<lparr>CURRENT_SCHEDULE_START := Some (START_TIME s),
                                    CURRENT_SCHEDULE_END := Some (START_TIME s + timedelta_hours 1)\<rparr>;
               hass1 = set_schedules hass rest consumer
           in (case start_charging hass1 (CONF_OUTPUT_SOURCE sd1) consumer of
                 (hass2, Some e) \<Rightarrow> (hass2, sd1, Some e)
               | (hass2, None) \<Rightarrow> (hass2, sd1\<lparr>START_SCHEDULED_CHARGING := False\<rparr>, None))))"

definition stop_scheduled_charging ::
  "'p hass \<Rightarrow> scheduler_data \<Rightarrow> string \<Rightarrow> 'p hass \<times> scheduler_data \<times> error option" where
  "stop_scheduled_charging hass scheduler_data consumer =
     (case stop_charging hass (CONF_OUTPUT_SOURCE scheduler_data) consumer of
        (hass1, Some e) \<Rightarrow> (hass1, scheduler_data, Some e)
      | (hass1, None) \<Rightarrow> (hass1, scheduler_data\<lparr>START_SCHEDULED_CHARGING := True\<rparr>, None))"

definition reset_current_schedule :: "scheduler_data \<Rightarrow> scheduler_data" where
  "reset_current_schedule scheduler_data =
     scheduler_data\<lparr>CURRENT_SCHEDULE_START := None, CURRENT_SCHEDULE_END := None\<rparr>"

definition try_to_start_charging ::
  "datetime \<Rightarrow> 'p hass \<Rightarrow> string \<Rightarrow> scheduler_data \<Rightarrow> string \<Rightarrow> 'p slot list
     \<Rightarrow> 'p hass \<times> scheduler_data \<times> error option" where
  \<comment> \<open>the first argument is the value of \<open>datetime.now()\<close>\<close>
  "try_to_start_charging now hass car_status scheduler_data consumer schedules =
     (if car_status = CHARGING_FINISHED
      then (case schedules of
              [] \<Rightarrow> (hass, scheduler_data, Some IndexError)
            | s # rest \<Rightarrow>
                (let current_time = now;
                     end_time = START_TIME s + timedelta_hours 1
                 in if end_time > current_time \<and> current_time > START_TIME s
                    then start_scheduled_charging hass scheduler_data consumer schedules
                    else (hass, scheduler_data, None)))
      else (hass, scheduler_data\<lparr>START_SCHEDULED_CHARGING := False\<rparr>, None))"

definition reset_or_continue_charging ::
  "datetime \<Rightarrow> 'p hass \<Rightarrow> scheduler_data \<Rightarrow> string
     \<Rightarrow> 'p hass \<times> scheduler_data \<times> error option" where
  "reset_or_continue_charging now hass scheduler_data consumer =
     (case CURRENT_SCHEDULE_END scheduler_data of
        None \<Rightarrow> (hass, scheduler_data, Some TypeError)
      | Some schedule_end \<Rightarrow>
          if now > schedule_end
          then (case stop_scheduled_charging hass scheduler_data consumer of
                  (hass1, sd1, Some e) \<Rightarrow> (hass1, sd1, Some e)
                | (hass1, sd1, None) \<Rightarrow> (hass1, reset_current_schedule sd1, None))
          else (hass, scheduler_data, None))"


text \<open>
  How one pass through the body of the \<open>for\<close> loop of \<open>fetch_states\<close> ends: the loop goes
  on to the next consumer, leaves through \<open>break\<close>, or an exception leaves \<open>fetch_states\<close>.
\<close>

datatype flow = Next | Break | Raise error

definition flow_of :: "error option \<Rightarrow> flow" where
  "flow_of r = (case r of None \<Rightarrow> Next | Some e \<Rightarrow> Raise e)"

definition car_status_of :: "'p hass \<Rightarrow> string \<Rightarrow> string" where
  \<comment> \<open>\<open>car_state.state if car_state else ""\<close>\<close>
  "car_status_of hass consumer =
     (case car_status_states hass consumer of None \<Rightarrow> [] | Some st \<Rightarrow> st)"

definition fetch_states_body ::
  "datetime \<Rightarrow> ('p::linorder) hass \<Rightarrow> string \<Rightarrow> scheduler_data
     \<Rightarrow> 'p hass \<times> scheduler_data \<times> flow" where
  \<comment> \<open>the body of the loop over \<open>data[CONF_CONSUMERS]\<close>, for the consumer named \<open>consumer\<close>
      whose dictionary is \<open>scheduler_data\<close>\<close>
  "fetch_states_body now hass consumer scheduler_data =
     (if ENABLED scheduler_data \<and> CHARGING_SCHEDULES_ENABLED scheduler_data
      then
        (let start_scheduled_charging_flag = START_SCHEDULED_CHARGING scheduler_data;
             car_status = car_status_of hass consumer
         in (case calculate_next_schedules hass car_status scheduler_data consumer of
               (hass1, Inl e) \<Rightarrow> (hass1, scheduler_data, Raise e)
             | (hass1, Inr schedules) \<Rightarrow>
                 if schedules = [] then (hass1, scheduler_data, Break)
                 else if start_scheduled_charging_flag
                 then (case try_to_start_charging now hass1 car_status scheduler_data
                              consumer schedules of
                         (hass2, sd2, r) \<Rightarrow> (hass2, sd2, flow_of r))
                 else if car_status = CAR_IS_CHARGING
                 then (if CURRENT_SCHEDULE_START scheduler_data = None
                          \<or> CURRENT_SCHEDULE_END scheduler_data = None
                       then (case stop_scheduled_charging hass1 scheduler_data consumer of
                               (hass2, sd2, r) \<Rightarrow> (hass2, sd2, flow_of r))
                       else (case reset_or_continue_charging now hass1 scheduler_data consumer of
                               (hass2, sd2, r) \<Rightarrow> (hass2, sd2, flow_of r)))
                 else (if CURRENT_SCHEDULE_START scheduler_data \<noteq> None
                          \<or> CURRENT_SCHEDULE_END scheduler_data \<noteq> None
                       then (case stop_charging hass1 (CONF_OUTPUT_SOURCE scheduler_data)
                                    consumer of
                               (hass2, Some e) \<Rightarrow> (hass2, scheduler_data, Raise e)
                             | (hass2, None) \<Rightarrow>
                                 (hass2, reset_current_schedule scheduler_data, Next))
                       else (hass1, scheduler_data, Next))))
      else (hass, scheduler_data, Next))"

text \<open>
  The loop of \<open>fetch_states\<close> over the names in \<open>data[CONF_CONSUMERS]\<close>. A consumer's
  dictionary is mutated in place, so what the body did to it is in \<open>data\<close> also when the
  loop is left early. The result is the Home Assistant state, the coordinator data, and
  the exception if \<open>fetch_states\<close> raised.
\<close>

fun fetch_states_loop ::
  "datetime \<Rightarrow> string list \<Rightarrow> ('p::linorder) hass \<Rightarrow> (string \<times> scheduler_data) list
     \<Rightarrow> 'p hass \<times> (string \<times> scheduler_data) list \<times> error option" where
  "fetch_states_loop now [] hass data = (hass, data, None)"
| "fetch_states_loop now (consumer # consumers) hass data =
     (case map_of data consumer of
        None \<Rightarrow> (hass, data, Some KeyError)
      | Some scheduler_data \<Rightarrow>
          (case fetch_states_body now hass consumer scheduler_data of
             (hass1, sd1, fl) \<Rightarrow>
               (let data1 = AList.update consumer sd1 data
                in (case fl of
                      Next \<Rightarrow> fetch_states_loop now consumers hass1 data1
                    | Break \<Rightarrow> (hass1, data1, None)
                    | Raise e \<Rightarrow> (hass1, data1, Some e)))))"

definition fetch_states ::
  "datetime \<Rightarrow> ('p::linorder) hass \<Rightarrow> (string \<times> scheduler_data) list
     \<Rightarrow> 'p hass \<times> (string \<times> scheduler_data) list \<times> error option" where
  \<comment> \<open>one tick; every \<open>datetime.now()\<close> of the tick reads the first argument\<close>
  "fetch_states now hass data = fetch_states_loop now (map fst data) hass data"



section \<open>Notions of the specification\<close>

definition next_0700_strictly_after :: "datetime \<Rightarrow> datetime" where
  \<comment> \<open>the specification's deadline of SIMPLE mode: 07:00 today if now is before 07:00
      today, otherwise (also at exactly 07:00) 07:00 tomorrow\<close>
  "next_0700_strictly_after now =
     (if time_of_day now < timedelta_hours 7 then midnight now + timedelta_hours 7
      else midnight now + timedelta_days 1 + timedelta_hours 7)"

definition timedelta_total_hours :: "timedelta \<Rightarrow> int" where
  \<comment> \<open>"deadline minus now, truncated to whole hours": the whole difference, in hours,
      truncated toward zero\<close>
  "timedelta_total_hours d = (if 0 \<le> d then d div usec_per_hour else - ((- d) div usec_per_hour))"

definition slot_record_invariant :: "scheduler_data \<Rightarrow> bool" where
  \<comment> \<open>\<open>currentScheduleStart\<close> is null iff \<open>currentScheduleEnd\<close> is, and \<open>pendingRetry\<close>
      implies that both are null\<close>
  "slot_record_invariant sd \<longleftrightarrow>
     (CURRENT_SCHEDULE_START sd = None \<longleftrightarrow> CURRENT_SCHEDULE_END sd = None)
     \<and> (START_SCHEDULED_CHARGING sd \<longrightarrow>
          CURRENT_SCHEDULE_START sd = None \<and> CURRENT_SCHEDULE_END sd = None)"

definition eligible :: "datetime \<Rightarrow> 'p forecast_entry list \<Rightarrow> 'p slot list" where
  \<comment> \<open>the forecast entries that start no later than the deadline, as slots, in forecast order\<close>
  "eligible deadline prices =
     map (\<lambda>price. \<lparr>VALUE = marketprice price, START_TIME = start_time price\<rparr>)
       (filter (\<lambda>price. start_time price \<le> deadline) prices)"

definition price_then_time :: "('p::linorder) slot \<Rightarrow> 'p slot \<Rightarrow> bool" where
  \<comment> \<open>the specification's order of slots: price ascending, ties by start time ascending\<close>
  "price_then_time a b \<longleftrightarrow>
     VALUE a < VALUE b \<or> (VALUE a = VALUE b \<and> START_TIME a \<le> START_TIME b)"

definition ended_with_start :: "command list \<Rightarrow> bool" where
  \<comment> \<open>the last controller call made is a start\<close>
  "ended_with_start cs =
     (case rev cs of
        [] \<Rightarrow> False
      | c # _ \<Rightarrow> (case c of Start _ _ \<Rightarrow> True | Stop _ _ \<Rightarrow> False))"

text \<open>
  Whether the controller call for a consumer ends in an exception: the output source is the
  go-e charger and the service call raises.
\<close>

definition start_raises :: "'p hass \<Rightarrow> scheduler_data \<Rightarrow> string \<Rightarrow> bool" where
  "start_raises hass sd consumer \<longleftrightarrow>
     CONF_OUTPUT_SOURCE sd = Some GO_E \<and> service_raises hass GO_E ''start_charging'' consumer"

definition stop_raises :: "'p hass \<Rightarrow> scheduler_data \<Rightarrow> string \<Rightarrow> bool" where
  "stop_raises hass sd consumer \<longleftrightarrow>
     CONF_OUTPUT_SOURCE sd = Some GO_E \<and> service_raises hass GO_E ''stop_charging'' consumer"


section \<open>Example inputs\<close>

text \<open>
  The times of the examples, in microseconds since midnight of day 0:
  03:00 is 10800000000, 12:00 is 43200000000, 12:30 is 45000000000, 13:00 is 46800000000,
  14:00 is 50400000000, 14:30 is 52200000000, 15:00 is 54000000000, 16:00 is 57600000000,
  17:30 is 63000000000, and 07:00 of day 1 is 111600000000. \<open>charger1\<close> is the consumer of the repository's tests; the forecast has one
  entry per hour from 12:00 to 14:00, the cheapest first in time; the records are those of
  \<open>charger1\<close> built at 12:30, idle, waiting for its start, and with the slot of 12:00
  active. \<open>ranking_forecast\<close> has five entries out of time order, two of them at the same
  price and one after 15:00; \<open>ranking_record q\<close> has the deadline 15:00 and the quota \<open>q\<close>.
\<close>

definition charger1 :: consumer_config where
  "charger1 = \<lparr>name = ''charger1'', input_source = Some ''smartenergy_awattar'',
      output_source = Some ''smartenergy_goecharger'', smart_energy_mode = Some ''simple'',
      hours_to_charge = None, charging_time_window_hours = None\<rparr>"

definition charger0 :: consumer_config where
  "charger0 = \<lparr>name = ''charger0'', input_source = Some ''smartenergy_awattar'',
      output_source = Some ''smartenergy_goecharger'', smart_energy_mode = Some ''precise'',
      hours_to_charge = Some 0, charging_time_window_hours = Some 5\<rparr>"

definition example_forecast :: "int forecast_entry list" where
  "example_forecast =
     [\<lparr>marketprice = 52, start_time = 50400000000\<rparr>,
      \<lparr>marketprice = 50, start_time = 43200000000\<rparr>,
      \<lparr>marketprice = 51, start_time = 46800000000\<rparr>]"

definition example_slots :: "int slot list" where
  "example_slots = [\<lparr>VALUE = 50, START_TIME = 43200000000\<rparr>, \<lparr>VALUE = 51, START_TIME = 46800000000\<rparr>]"

definition example_hass :: "string \<Rightarrow> int slot list \<Rightarrow> (string \<Rightarrow> bool) \<Rightarrow> int hass" where
  "example_hass status stored raises =
     \<lparr>FORECAST = Some example_forecast,
      car_status_states = [''charger1'' \<mapsto> status],
      current_schedules_states = [''charger1'' \<mapsto> stored],
      service_raises = (\<lambda>domain service device_name. raises service),
      commands = []\<rparr>"

definition idle_record :: scheduler_data where
  "idle_record = consumer_record 45000000000 charger1"

definition awaiting_start_record :: scheduler_data where
  "awaiting_start_record = idle_record\<lparr>START_SCHEDULED_CHARGING := True\<rparr>"

definition active_record :: scheduler_data where
  "active_record = idle_record\<lparr>CURRENT_SCHEDULE_START := Some 43200000000,
                                CURRENT_SCHEDULE_END := Some 46800000000\<rparr>"

definition unsupported_record :: scheduler_data where
  "unsupported_record = awaiting_start_record\<lparr>CONF_OUTPUT_SOURCE := Some ''other_charger''\<rparr>"

definition first_tick :: "int hass \<times> (string \<times> scheduler_data) list \<times> error option" where
  "first_tick =
     fetch_states 45000000000
       (example_hass CAR_IS_CHARGING [] (\<lambda>service. service = ''start_charging''))
       (get_consumer_config 45000000000 [charger1])"

definition second_tick :: "int hass \<times> (string \<times> scheduler_data) list \<times> error option" where
  "second_tick =
     (case first_tick of
        (hass1, data1, r1) \<Rightarrow>
          fetch_states 45010000000
            (hass1\<lparr>car_status_states := [''charger1'' \<mapsto> CHARGING_FINISHED]\<rparr>) data1)"

definition precise_record :: scheduler_data where
  "precise_record = consumer_record 45000000000 charger0"

definition negative_quota_record :: scheduler_data where
  "negative_quota_record = idle_record\<lparr>CURRENT_CYCLE_HOURS_TO_CHARGE := Some (- 1)\<rparr>"

definition null_quota_config :: consumer_config where
  "null_quota_config = \<lparr>name = ''charger2'', input_source = Some ''smartenergy_awattar'',
      output_source = Some ''smartenergy_goecharger'', smart_energy_mode = Some ''precise'',
      hours_to_charge = None, charging_time_window_hours = Some 2\<rparr>"

definition ranking_forecast :: "int forecast_entry list" where
  "ranking_forecast =
     [\<lparr>marketprice = 55, start_time = 43200000000\<rparr>,
      \<lparr>marketprice = 50, start_time = 50400000000\<rparr>,
      \<lparr>marketprice = 50, start_time = 46800000000\<rparr>,
      \<lparr>marketprice = 40, start_time = 57600000000\<rparr>,
      \<lparr>marketprice = 60, start_time = 54000000000\<rparr>]"

definition ranking_hass :: "int hass" where
  "ranking_hass = (example_hass CHARGING_FINISHED [] (\<lambda>_. False))\<lparr>FORECAST := Some ranking_forecast\<rparr>"

definition ranking_record :: "int \<Rightarrow> scheduler_data" where
  "ranking_record q = idle_record\<lparr>CURRENT_CYCLE_HOURS_TO_CHARGE := Some q,
                                  CURRENT_CYCLE_CHARGING_TIME_WINDOW_DATE := Some 54000000000\<rparr>"

definition no_window_config :: consumer_config where
  "no_window_config = \<lparr>name = ''charger3'', input_source = Some ''smartenergy_awattar'',
      output_source = Some ''smartenergy_goecharger'', smart_energy_mode = Some ''precise'',
      hours_to_charge = None, charging_time_window_hours = None\<rparr>"


section \<open>Auxiliary facts\<close>

lemma calc_simple: "calculate_next_time_window now (Some SIMPLE) w = Some (midnight now + timedelta_days 1 + timedelta_hours 7)"
  by (simp add: calculate_next_time_window_def replace_hour_def)

lemma loop_mem:
  "(n, sd) \<in> set (get_consumer_config_loop now cs acc) \<Longrightarrow>
     (n, sd) \<in> set acc \<or> (\<exists>c \<in> set cs. n = name c \<and> sd = consumer_record now c)"
proof (induction cs arbitrary: acc)
  case Nil then show ?case by simp
next
  case (Cons c cs)
  from Cons.prems have "(n, sd) \<in> set (get_consumer_config_loop now cs (AList.update (name c) (consumer_record now c) acc))" by simp
  from Cons.IH[OF this] show ?case
  proof
    assume "(n, sd) \<in> set (AList.update (name c) (consumer_record now c) acc)"
    then have "(n, sd) \<in> set acc \<or> (n = name c \<and> sd = consumer_record now c)"
      by (induction acc) (auto split: if_splits)
    then show ?thesis by auto
  next
    assume "\<exists>c\<in>set cs. n = name c \<and> sd = consumer_record now c"
    then show ?thesis by auto
  qed
qed

lemma get_consumer_config_mem:
  "(n, sd) \<in> set (get_consumer_config now cs) \<Longrightarrow> \<exists>c \<in> set cs. n = name c \<and> sd = consumer_record now c"
  using loop_mem[of n sd now cs "[]"] by (simp add: get_consumer_config_def)

lemma midnight_le: "midnight t \<le> t" "t < midnight t + usec_per_day"
  unfolding midnight_def usec_per_day_def usec_per_hour_def usec_per_second_def
  by (simp_all add: algebra_simps)

lemma gcc1: "get_consumer_config now [c] = [(name c, consumer_record now c)]"
  by (simp add: get_consumer_config_def)

lemma forecast_data_loop_eligible:
  "forecast_data_loop (Some d) prices acc = Inr (acc @ eligible d prices)"
  by (induction prices arbitrary: acc) (simp_all add: eligible_def)

lemma find_forecast_dates_Some:
  "find_forecast_dates hass (Some d) =
     Inr (sort_key slot_key (eligible d (case FORECAST hass of None \<Rightarrow> [] | Some prices \<Rightarrow> prices)))"
  by (simp add: find_forecast_dates_def forecast_data_loop_eligible eligible_def split: option.splits)

lemma calculate_next_schedules_refresh:
  assumes "(car_status \<noteq> CAR_IS_CHARGING \<and> \<not> START_SCHEDULED_CHARGING sd) \<or> get_schedules hass consumer = []"
    and "CURRENT_CYCLE_CHARGING_TIME_WINDOW_DATE sd = Some d"
  shows "calculate_next_schedules hass car_status sd consumer =
     (let sel = slice_from_start (sort_key slot_key (eligible d (case FORECAST hass of None \<Rightarrow> [] | Some prices \<Rightarrow> prices)))
                  (CURRENT_CYCLE_HOURS_TO_CHARGE sd)
      in (set_schedules hass sel consumer, Inr sel))"
  using assms by (auto simp add: calculate_next_schedules_def find_forecast_dates_Some Let_def)

lemma calculate_next_schedules_keep:
  assumes "car_status = CAR_IS_CHARGING \<or> START_SCHEDULED_CHARGING sd"
    and "get_schedules hass consumer \<noteq> []"
  shows "calculate_next_schedules hass car_status sd consumer = (hass, Inr (get_schedules hass consumer))"
  using assms by (auto simp add: calculate_next_schedules_def Let_def)

lemma calculate_next_schedules_frame:
  assumes "calculate_next_schedules hass car_status sd consumer = (hass1, r)"
  shows "commands hass1 = commands hass \<and> service_raises hass1 = service_raises hass
         \<and> car_status_states hass1 = car_status_states hass \<and> FORECAST hass1 = FORECAST hass"
  using assms
  by (auto simp add: calculate_next_schedules_def Let_def set_schedules_def split: if_splits sum.splits)

lemma eligible_le: "s \<in> set (eligible d prices) \<Longrightarrow> START_TIME s \<le> d"
  by (auto simp add: eligible_def)

lemma start_charging_eq:
  "start_charging hass (CONF_OUTPUT_SOURCE sd) consumer =
     (hass\<lparr>commands := commands hass @ [Start (CONF_OUTPUT_SOURCE sd) consumer]\<rparr>,
      if start_raises hass sd consumer then Some ServiceError else None)"
  by (simp add: start_charging_def start_raises_def Let_def)

lemma stop_charging_eq:
  "stop_charging hass (CONF_OUTPUT_SOURCE sd) consumer =
     (hass\<lparr>commands := commands hass @ [Stop (CONF_OUTPUT_SOURCE sd) consumer]\<rparr>,
      if stop_raises hass sd consumer then Some ServiceError else None)"
  by (simp add: stop_charging_def stop_raises_def Let_def)

lemma start_scheduled_charging_eq:
  "start_scheduled_charging hass sd consumer (s # rest) =
     ((set_schedules hass rest consumer)
        \<lparr>commands := commands hass @ [Start (CONF_OUTPUT_SOURCE sd) consumer]\<rparr>,
      sd\<lparr>CURRENT_SCHEDULE_START := Some (START_TIME s),
         CURRENT_SCHEDULE_END := Some (START_TIME s + timedelta_hours 1),
         START_SCHEDULED_CHARGING :=
           (START_SCHEDULED_CHARGING sd \<and> start_raises hass sd consumer)\<rparr>,
      if start_raises hass sd consumer then Some ServiceError else None)"
  by (simp add: start_scheduled_charging_def start_charging_def start_raises_def Let_def
      set_schedules_def)

lemma stop_scheduled_charging_eq:
  "stop_scheduled_charging hass sd consumer =
     (hass\<lparr>commands := commands hass @ [Stop (CONF_OUTPUT_SOURCE sd) consumer]\<rparr>,
      if stop_raises hass sd consumer then sd else sd\<lparr>START_SCHEDULED_CHARGING := True\<rparr>,
      if stop_raises hass sd consumer then Some ServiceError else None)"
  by (simp add: stop_scheduled_charging_def stop_charging_def stop_raises_def Let_def)

lemma stop_raises_frame:
  "calculate_next_schedules hass car_status sd consumer = (hass1, r) \<Longrightarrow>
     stop_raises hass1 sd c = stop_raises hass sd c \<and> start_raises hass1 sd c = start_raises hass sd c"
  using calculate_next_schedules_frame[of hass car_status sd consumer hass1 r]
  by (simp add: stop_raises_def start_raises_def)

text \<open>AWAITING_START, device ready, inside the window.\<close>
lemma body_confirmed_start:
  fixes hass :: "('p::linorder) hass"
  assumes en: "ENABLED sd" "CHARGING_SCHEDULES_ENABLED sd"
    and pend: "START_SCHEDULED_CHARGING sd"
    and ready: "car_status_of hass consumer = CHARGING_FINISHED"
    and sched: "get_schedules hass consumer = s # rest"
    and win: "START_TIME s < now" "now < START_TIME s + timedelta_hours 1"
  shows "fetch_states_body now hass consumer sd =
     ((set_schedules hass rest consumer)
        \<lparr>commands := commands hass @ [Start (CONF_OUTPUT_SOURCE sd) consumer]\<rparr>,
      sd\<lparr>CURRENT_SCHEDULE_START := Some (START_TIME s),
         CURRENT_SCHEDULE_END := Some (START_TIME s + timedelta_hours 1),
         START_SCHEDULED_CHARGING := start_raises hass sd consumer\<rparr>,
      if start_raises hass sd consumer then Raise ServiceError else Next)"
proof -
  have c: "calculate_next_schedules hass CHARGING_FINISHED sd consumer = (hass, Inr (s # rest))"
    using calculate_next_schedules_keep[of CHARGING_FINISHED sd hass consumer] pend sched by simp
  have t: "try_to_start_charging now hass CHARGING_FINISHED sd consumer (s # rest)
            = start_scheduled_charging hass sd consumer (s # rest)"
    using win by (simp add: try_to_start_charging_def Let_def)
  show ?thesis
    using en pend ready
    by (simp add: fetch_states_body_def Let_def c t start_scheduled_charging_eq flow_of_def)
qed

lemma body_outside_window:
  fixes hass :: "('p::linorder) hass"
  assumes en: "ENABLED sd" "CHARGING_SCHEDULES_ENABLED sd"
    and pend: "START_SCHEDULED_CHARGING sd"
    and ready: "car_status_of hass consumer = CHARGING_FINISHED"
    and sched: "get_schedules hass consumer = s # rest"
    and win: "now \<le> START_TIME s \<or> START_TIME s + timedelta_hours 1 \<le> now"
  shows "fetch_states_body now hass consumer sd = (hass, sd, Next)"
proof -
  have c: "calculate_next_schedules hass CHARGING_FINISHED sd consumer = (hass, Inr (s # rest))"
    using calculate_next_schedules_keep[of CHARGING_FINISHED sd hass consumer] pend sched by simp
  have t: "try_to_start_charging now hass CHARGING_FINISHED sd consumer (s # rest)
            = (hass, sd, None)"
    using win by (auto simp add: try_to_start_charging_def Let_def)
  show ?thesis
    using en pend ready
    by (simp add: fetch_states_body_def Let_def c t flow_of_def)
qed

text \<open>ACTIVE, device charging.\<close>
lemma body_active_charging:
  fixes hass :: "('p::linorder) hass"
  assumes en: "ENABLED sd" "CHARGING_SCHEDULES_ENABLED sd"
    and pend: "\<not> START_SCHEDULED_CHARGING sd"
    and act: "CURRENT_SCHEDULE_START sd = Some a" "CURRENT_SCHEDULE_END sd = Some e"
    and st: "car_status_of hass consumer = CAR_IS_CHARGING"
    and calc: "calculate_next_schedules hass CAR_IS_CHARGING sd consumer = (hass1, Inr schedules)"
    and ne: "schedules \<noteq> []"
  shows "fetch_states_body now hass consumer sd =
     (if now > e
      then (hass1\<lparr>commands := commands hass @ [Stop (CONF_OUTPUT_SOURCE sd) consumer]\<rparr>,
            if stop_raises hass sd consumer then sd
            else sd\<lparr>CURRENT_SCHEDULE_START := None, CURRENT_SCHEDULE_END := None,
                    START_SCHEDULED_CHARGING := True\<rparr>,
            if stop_raises hass sd consumer then Raise ServiceError else Next)
      else (hass1, sd, Next))"
proof -
  note fr = calculate_next_schedules_frame[OF calc] stop_raises_frame[OF calc]
  show ?thesis
    using en pend act st ne fr
    by (simp add: fetch_states_body_def Let_def calc reset_or_continue_charging_def
        stop_scheduled_charging_eq reset_current_schedule_def flow_of_def)
qed

text \<open>Device not charging, no pending start.\<close>
lemma body_not_charging:
  fixes hass :: "('p::linorder) hass"
  assumes en: "ENABLED sd" "CHARGING_SCHEDULES_ENABLED sd"
    and pend: "\<not> START_SCHEDULED_CHARGING sd"
    and st: "car_status_of hass consumer \<noteq> CAR_IS_CHARGING"
    and calc: "calculate_next_schedules hass (car_status_of hass consumer) sd consumer = (hass1, Inr schedules)"
    and ne: "schedules \<noteq> []"
  shows "fetch_states_body now hass consumer sd =
     (if CURRENT_SCHEDULE_START sd \<noteq> None \<or> CURRENT_SCHEDULE_END sd \<noteq> None
      then (hass1\<lparr>commands := commands hass @ [Stop (CONF_OUTPUT_SOURCE sd) consumer]\<rparr>,
            if stop_raises hass sd consumer then sd
            else sd\<lparr>CURRENT_SCHEDULE_START := None, CURRENT_SCHEDULE_END := None\<rparr>,
            if stop_raises hass sd consumer then Raise ServiceError else Next)
      else (hass1, sd, Next))"
proof -
  note fr = calculate_next_schedules_frame[OF calc] stop_raises_frame[OF calc]
  show ?thesis
    using en pend st ne fr
    by (simp add: fetch_states_body_def Let_def calc stop_charging_eq
        reset_current_schedule_def flow_of_def)
qed

text \<open>IDLE, device charging.\<close>
lemma body_idle_charging:
  fixes hass :: "('p::linorder) hass"
  assumes en: "ENABLED sd" "CHARGING_SCHEDULES_ENABLED sd"
    and pend: "\<not> START_SCHEDULED_CHARGING sd"
    and idle: "CURRENT_SCHEDULE_START sd = None \<or> CURRENT_SCHEDULE_END sd = None"
    and st: "car_status_of hass consumer = CAR_IS_CHARGING"
    and calc: "calculate_next_schedules hass CAR_IS_CHARGING sd consumer = (hass1, Inr schedules)"
    and ne: "schedules \<noteq> []"
  shows "fetch_states_body now hass consumer sd =
     (hass1\<lparr>commands := commands hass @ [Stop (CONF_OUTPUT_SOURCE sd) consumer]\<rparr>,
      if stop_raises hass sd consumer then sd else sd\<lparr>START_SCHEDULED_CHARGING := True\<rparr>,
      if stop_raises hass sd consumer then Raise ServiceError else Next)"
proof -
  note fr = calculate_next_schedules_frame[OF calc] stop_raises_frame[OF calc]
  show ?thesis
    using en pend idle st ne fr
    by (auto simp add: fetch_states_body_def Let_def calc stop_scheduled_charging_eq flow_of_def)
qed

lemma stop_scheduled_charging_inv:
  assumes "slot_record_invariant sd"
    and "CURRENT_SCHEDULE_START sd = None \<or> CURRENT_SCHEDULE_END sd = None"
    and "stop_scheduled_charging hass sd consumer = (hass', sd', r)"
  shows "slot_record_invariant sd'"
  using assms
  by (auto simp add: stop_scheduled_charging_eq slot_record_invariant_def split: if_splits)

lemma reset_or_continue_charging_inv:
  assumes "slot_record_invariant sd"
    and "reset_or_continue_charging now hass sd consumer = (hass', sd', r)"
  shows "slot_record_invariant sd'"
  using assms
  by (auto simp add: reset_or_continue_charging_def stop_scheduled_charging_eq
      reset_current_schedule_def slot_record_invariant_def split: if_splits option.splits)

lemma ended_with_start_simps [simp]:
  "ended_with_start (cs @ [Start out dev])"
  "\<not> ended_with_start (cs @ [Stop out dev])"
  by (simp_all add: ended_with_start_def)

lemma try_to_start_charging_inv_or_raise:
  assumes "slot_record_invariant sd"
    and "try_to_start_charging now hass car_status sd consumer schedules = (hass', sd', r)"
  shows "slot_record_invariant sd'
         \<or> (r = Some ServiceError
             \<and> commands hass' = commands hass @ [Start (CONF_OUTPUT_SOURCE sd) consumer])"
proof (cases schedules)
  case Nil
  with assms show ?thesis
    by (auto simp add: try_to_start_charging_def slot_record_invariant_def split: if_splits)
next
  case (Cons s rest)
  with assms show ?thesis
    by (auto simp add: try_to_start_charging_def Let_def start_scheduled_charging_eq
        slot_record_invariant_def set_schedules_def split: if_splits)
qed

lemma fetch_states_body_inv_or_raise:
  fixes hass :: "('p::linorder) hass"
  assumes inv: "slot_record_invariant sd"
    and body: "fetch_states_body now hass consumer sd = (hass', sd', fl)"
  shows "slot_record_invariant sd'
         \<or> (fl = Raise ServiceError
             \<and> commands hass' = commands hass @ [Start (CONF_OUTPUT_SOURCE sd) consumer])"
proof (cases "ENABLED sd \<and> CHARGING_SCHEDULES_ENABLED sd")
  case False
  with body inv show ?thesis by (auto simp add: fetch_states_body_def)
next
  case True
  obtain hass1 r where calc:
    "calculate_next_schedules hass (car_status_of hass consumer) sd consumer = (hass1, r)"
    by (cases "calculate_next_schedules hass (car_status_of hass consumer) sd consumer") auto
  have c1: "commands hass1 = commands hass"
    using calculate_next_schedules_frame[OF calc] by simp
  show ?thesis
  proof (cases r)
    case (Inl e)
    with body True calc inv show ?thesis by (simp add: fetch_states_body_def Let_def)
  next
    case (Inr schedules)
    show ?thesis
    proof (cases "schedules = []")
      case True
      with body \<open>ENABLED sd \<and> CHARGING_SCHEDULES_ENABLED sd\<close> calc Inr inv show ?thesis
        by (simp add: fetch_states_body_def Let_def)
    next
      case ne: False
      show ?thesis
      proof (cases "START_SCHEDULED_CHARGING sd")
        case pend: True
        obtain h2 sd2 r2 where t:
          "try_to_start_charging now hass1 (car_status_of hass consumer) sd consumer schedules = (h2, sd2, r2)"
          by (metis prod_cases3)
        from body True calc Inr ne pend t have e: "sd' = sd2" "hass' = h2" "fl = flow_of r2"
          by (simp_all add: fetch_states_body_def Let_def)
        from try_to_start_charging_inv_or_raise[OF inv t] show ?thesis
          unfolding e c1 by (auto simp add: flow_of_def)
      next
        case np: False
        have "slot_record_invariant sd'"
        proof (cases "car_status_of hass consumer = CAR_IS_CHARGING")
          case ch: True
          show ?thesis
          proof (cases "CURRENT_SCHEDULE_START sd = None \<or> CURRENT_SCHEDULE_END sd = None")
            case idle: True
            obtain h2 sd2 r2 where t: "stop_scheduled_charging hass1 sd consumer = (h2, sd2, r2)"
              by (metis prod_cases3)
            from body True calc Inr ne np ch idle t have "sd' = sd2"
              by (auto simp add: fetch_states_body_def Let_def)
            with stop_scheduled_charging_inv[OF inv idle t] show ?thesis by simp
          next
            case act: False
            obtain h2 sd2 r2 where t: "reset_or_continue_charging now hass1 sd consumer = (h2, sd2, r2)"
              by (metis prod_cases3)
            from body True calc Inr ne np ch act t have "sd' = sd2"
              by (auto simp add: fetch_states_body_def Let_def)
            with reset_or_continue_charging_inv[OF inv t] show ?thesis by simp
          qed
        next
          case nch: False
          from body True calc Inr ne np nch inv show ?thesis
            by (auto simp add: fetch_states_body_def Let_def stop_charging_eq
                reset_current_schedule_def slot_record_invariant_def split: if_splits)
        qed
        then show ?thesis by simp
      qed
    qed
  qed
qed

lemma consumer_record_inv: "slot_record_invariant (consumer_record now c)"
  by (simp add: slot_record_invariant_def consumer_record_def Let_def)

lemma update_mem:
  "(n, v) \<in> set (AList.update k w al) \<Longrightarrow> (n, v) \<in> set al \<or> (n = k \<and> v = w)"
  by (induction al) (auto split: if_splits)

lemma fetch_states_loop_inv_or_raise:
  fixes hass :: "('p::linorder) hass"
  assumes "\<forall>(n, sd) \<in> set data. slot_record_invariant sd"
    and "fetch_states_loop now cs hass data = (hass', data', r)"
    and "\<not> (r = Some ServiceError \<and> ended_with_start (commands hass'))"
  shows "\<forall>(n, sd) \<in> set data'. slot_record_invariant sd"
  using assms
proof (induction cs arbitrary: hass data)
  case Nil
  then show ?case by simp
next
  case (Cons c cs)
  show ?case
  proof (cases "map_of data c")
    case None
    with Cons.prems show ?thesis by simp
  next
    case (Some sd)
    then have "(c, sd) \<in> set data" by (rule map_of_SomeD)
    with Cons.prems(1) have inv: "slot_record_invariant sd" by auto
    obtain hass1 sd1 fl where body: "fetch_states_body now hass c sd = (hass1, sd1, fl)"
      by (metis prod_cases3)
    note d = fetch_states_body_inv_or_raise[OF inv body]
    show ?thesis
    proof (cases fl)
      case Next
      with d have inv1: "slot_record_invariant sd1" by simp
      have data1: "\<forall>(n, sd) \<in> set (AList.update c sd1 data). slot_record_invariant sd"
        using Cons.prems(1) inv1 update_mem[of _ _ c sd1 data] by blast
      from Next Cons.prems(2) Some body
      have "fetch_states_loop now cs hass1 (AList.update c sd1 data) = (hass', data', r)"
        by (simp add: Let_def)
      from Cons.IH[OF data1 this Cons.prems(3)] show ?thesis .
    next
      case Break
      with d have inv1: "slot_record_invariant sd1" by simp
      have data1: "\<forall>(n, sd) \<in> set (AList.update c sd1 data). slot_record_invariant sd"
        using Cons.prems(1) inv1 update_mem[of _ _ c sd1 data] by blast
      from Break Cons.prems(2) Some body have "data' = AList.update c sd1 data"
        by (simp add: Let_def)
      with data1 show ?thesis by simp
    next
      case (Raise e)
      with Cons.prems(2) Some body have res: "data' = AList.update c sd1 data" "hass' = hass1" "r = Some e"
        by (simp_all add: Let_def)
      have inv1: "slot_record_invariant sd1"
      proof (rule ccontr)
        assume "\<not> slot_record_invariant sd1"
        with d Raise have "e = ServiceError"
          and "commands hass1 = commands hass @ [Start (CONF_OUTPUT_SOURCE sd) c]" by simp_all
        with res Cons.prems(3) show False by simp
      qed
      have data1: "\<forall>(n, sd) \<in> set (AList.update c sd1 data). slot_record_invariant sd"
        using Cons.prems(1) inv1 update_mem[of _ _ c sd1 data] by blast
      with res show ?thesis by simp
    qed
  qed
qed

lemma idle_record_eq:
  "idle_record = \<lparr>ENABLED = True, CONF_INPUT_SOURCE = Some ''smartenergy_awattar'',
     CONF_OUTPUT_SOURCE = Some GO_E, CONF_SMART_ENERGY_MODE = Some SIMPLE,
     CURRENT_SCHEDULE_START = None, CURRENT_SCHEDULE_END = None,
     CURRENT_CYCLE_HOURS_TO_CHARGE = Some 4,
     CURRENT_CYCLE_CHARGING_TIME_WINDOW_HOURS = Some 18,
     CURRENT_CYCLE_CHARGING_TIME_WINDOW_DATE = Some 111600000000,
     START_SCHEDULED_CHARGING = False, CHARGING_SCHEDULES_ENABLED = True\<rparr>"
  by (simp add: idle_record_def consumer_record_def charger1_def Let_def GO_E_def SIMPLE_def
      calculate_next_time_window_def calculate_time_window_hours_def timedelta_seconds_def
      replace_hour_def midnight_def timedelta_days_def timedelta_hours_def
      usec_per_day_def usec_per_hour_def usec_per_second_def)

lemma example_hass_simps:
  "car_status_of (example_hass st stored r) ''charger1'' = st"
  "get_schedules (example_hass st stored r) ''charger1'' = stored"
  "commands (example_hass st stored r) = []"
  "FORECAST (example_hass st stored r) = Some example_forecast"
  "service_raises (example_hass st stored r) d sv n = r sv"
  by (simp_all add: example_hass_def car_status_of_def get_schedules_def)

lemma status_neq: "CHARGING_FINISHED \<noteq> CAR_IS_CHARGING"
  by (simp add: CHARGING_FINISHED_def CAR_IS_CHARGING_def)

lemma active_record_eq:
  "active_record = \<lparr>ENABLED = True, CONF_INPUT_SOURCE = Some ''smartenergy_awattar'',
     CONF_OUTPUT_SOURCE = Some GO_E, CONF_SMART_ENERGY_MODE = Some SIMPLE,
     CURRENT_SCHEDULE_START = Some 43200000000, CURRENT_SCHEDULE_END = Some 46800000000,
     CURRENT_CYCLE_HOURS_TO_CHARGE = Some 4,
     CURRENT_CYCLE_CHARGING_TIME_WINDOW_HOURS = Some 18,
     CURRENT_CYCLE_CHARGING_TIME_WINDOW_DATE = Some 111600000000,
     START_SCHEDULED_CHARGING = False, CHARGING_SCHEDULES_ENABLED = True\<rparr>"
  by (simp add: active_record_def idle_record_eq)

lemma example_keep:
  "stored \<noteq> [] \<Longrightarrow>
   calculate_next_schedules (example_hass CAR_IS_CHARGING stored r) CAR_IS_CHARGING sd ''charger1''
     = (example_hass CAR_IS_CHARGING stored r, Inr stored)"
  using calculate_next_schedules_keep[of CAR_IS_CHARGING sd "example_hass CAR_IS_CHARGING stored r" "''charger1''"]
  by (simp add: example_hass_simps)

lemma example_refresh_ready:
  "calculate_next_schedules (example_hass CHARGING_FINISHED stored r) CHARGING_FINISHED
       active_record ''charger1''
     = (set_schedules (example_hass CHARGING_FINISHED stored r)
          [\<lparr>VALUE = 50, START_TIME = 43200000000\<rparr>, \<lparr>VALUE = 51, START_TIME = 46800000000\<rparr>,
           \<lparr>VALUE = 52, START_TIME = 50400000000\<rparr>] ''charger1'',
        Inr [\<lparr>VALUE = 50, START_TIME = 43200000000\<rparr>, \<lparr>VALUE = 51, START_TIME = 46800000000\<rparr>,
           \<lparr>VALUE = 52, START_TIME = 50400000000\<rparr>])"
proof -
  have a: "(CHARGING_FINISHED \<noteq> CAR_IS_CHARGING \<and> \<not> START_SCHEDULED_CHARGING active_record)
           \<or> get_schedules (example_hass CHARGING_FINISHED stored r) ''charger1'' = []"
    by (simp add: status_neq active_record_eq)
  have b: "CURRENT_CYCLE_CHARGING_TIME_WINDOW_DATE active_record = Some 111600000000"
    by (simp add: active_record_eq)
  show ?thesis
    unfolding calculate_next_schedules_refresh[OF a b]
    by (simp add: example_hass_simps example_forecast_def eligible_def slot_key_def
        slice_from_start_def active_record_eq Let_def)
qed

lemma body_active_charging_no_action:
  fixes hass :: "('p::linorder) hass"
  assumes act: "CURRENT_SCHEDULE_START sd = Some a" "CURRENT_SCHEDULE_END sd = Some e"
    and np: "\<not> START_SCHEDULED_CHARGING sd"
    and le: "now \<le> e"
    and st: "car_status_of hass consumer = CAR_IS_CHARGING"
  shows "case fetch_states_body now hass consumer sd of
           (hass', sd', fl) \<Rightarrow> commands hass' = commands hass \<and> sd' = sd"
proof (cases "ENABLED sd \<and> CHARGING_SCHEDULES_ENABLED sd")
  case False
  then show ?thesis by (auto simp add: fetch_states_body_def)
next
  case True
  obtain hass1 r where calc:
    "calculate_next_schedules hass CAR_IS_CHARGING sd consumer = (hass1, r)"
    by (cases "calculate_next_schedules hass CAR_IS_CHARGING sd consumer") auto
  note fr = calculate_next_schedules_frame[OF calc]
  show ?thesis
  proof (cases r)
    case (Inl err)
    with True calc st fr show ?thesis by (simp add: fetch_states_body_def Let_def)
  next
    case (Inr schedules)
    show ?thesis
    proof (cases "schedules = []")
      case True
      with \<open>ENABLED sd \<and> CHARGING_SCHEDULES_ENABLED sd\<close> calc st fr Inr show ?thesis
        by (simp add: fetch_states_body_def Let_def)
    next
      case False
      from True have en: "ENABLED sd" "CHARGING_SCHEDULES_ENABLED sd" by simp_all
      from calc Inr have calc': "calculate_next_schedules hass CAR_IS_CHARGING sd consumer = (hass1, Inr schedules)"
        by simp
      show ?thesis
        unfolding body_active_charging[OF en np act st calc' False, of now]
        using le fr by simp
    qed
  qed
qed

lemma awaiting_start_record_eq:
  "awaiting_start_record = \<lparr>ENABLED = True, CONF_INPUT_SOURCE = Some ''smartenergy_awattar'',
     CONF_OUTPUT_SOURCE = Some GO_E, CONF_SMART_ENERGY_MODE = Some SIMPLE,
     CURRENT_SCHEDULE_START = None, CURRENT_SCHEDULE_END = None,
     CURRENT_CYCLE_HOURS_TO_CHARGE = Some 4,
     CURRENT_CYCLE_CHARGING_TIME_WINDOW_HOURS = Some 18,
     CURRENT_CYCLE_CHARGING_TIME_WINDOW_DATE = Some 111600000000,
     START_SCHEDULED_CHARGING = True, CHARGING_SCHEDULES_ENABLED = True\<rparr>"
  by (simp add: awaiting_start_record_def idle_record_eq)

lemma unsupported_record_eq:
  "unsupported_record = \<lparr>ENABLED = True, CONF_INPUT_SOURCE = Some ''smartenergy_awattar'',
     CONF_OUTPUT_SOURCE = Some ''other_charger'', CONF_SMART_ENERGY_MODE = Some SIMPLE,
     CURRENT_SCHEDULE_START = None, CURRENT_SCHEDULE_END = None,
     CURRENT_CYCLE_HOURS_TO_CHARGE = Some 4,
     CURRENT_CYCLE_CHARGING_TIME_WINDOW_HOURS = Some 18,
     CURRENT_CYCLE_CHARGING_TIME_WINDOW_DATE = Some 111600000000,
     START_SCHEDULED_CHARGING = True, CHARGING_SCHEDULES_ENABLED = True\<rparr>"
  by (simp add: unsupported_record_def awaiting_start_record_eq)

lemma example_window:
  "START_TIME \<lparr>VALUE = 50::int, START_TIME = 43200000000\<rparr> < 45000000000"
  "45000000000 < START_TIME \<lparr>VALUE = 50::int, START_TIME = 43200000000\<rparr> + timedelta_hours 1"
  "START_TIME \<lparr>VALUE = 50::int, START_TIME = 43200000000\<rparr> + timedelta_hours 1 = 46800000000"
  by (simp_all add: timedelta_hours_def usec_per_hour_def usec_per_second_def)

lemma example_sorted:
  "sort_key slot_key (eligible 111600000000 example_forecast) =
     [\<lparr>VALUE = 50, START_TIME = 43200000000\<rparr>, \<lparr>VALUE = 51, START_TIME = 46800000000\<rparr>,
      \<lparr>VALUE = 52, START_TIME = 50400000000\<rparr>]"
  by (simp add: example_forecast_def eligible_def slot_key_def)

lemma example_first_body:
  assumes "\<not> r ''stop_charging''"
  shows "fetch_states_body 45000000000 (example_hass CAR_IS_CHARGING [] r) ''charger1'' idle_record =
     ((set_schedules (example_hass CAR_IS_CHARGING [] r)
         [\<lparr>VALUE = 50, START_TIME = 43200000000\<rparr>, \<lparr>VALUE = 51, START_TIME = 46800000000\<rparr>,
          \<lparr>VALUE = 52, START_TIME = 50400000000\<rparr>] ''charger1'')
        \<lparr>commands := [Stop (Some GO_E) ''charger1'']\<rparr>,
      awaiting_start_record, Next)"
proof -
  let ?h = "example_hass CAR_IS_CHARGING [] r"
  let ?sel = "[\<lparr>VALUE = 50::int, START_TIME = 43200000000\<rparr>, \<lparr>VALUE = 51, START_TIME = 46800000000\<rparr>,
             \<lparr>VALUE = 52, START_TIME = 50400000000\<rparr>]"
  have e1: "ENABLED idle_record" and e2: "CHARGING_SCHEDULES_ENABLED idle_record"
    and e3: "\<not> START_SCHEDULED_CHARGING idle_record"
    and e4: "CURRENT_SCHEDULE_START idle_record = None \<or> CURRENT_SCHEDULE_END idle_record = None"
    and e5: "CURRENT_CYCLE_CHARGING_TIME_WINDOW_DATE idle_record = Some 111600000000"
    by (simp_all add: idle_record_eq)
  have st: "car_status_of ?h ''charger1'' = CAR_IS_CHARGING" by (simp add: example_hass_simps)
  have rf: "(CAR_IS_CHARGING \<noteq> CAR_IS_CHARGING \<and> \<not> START_SCHEDULED_CHARGING idle_record)
            \<or> get_schedules ?h ''charger1'' = []"
    by (simp add: example_hass_simps)
  have calc: "calculate_next_schedules ?h CAR_IS_CHARGING idle_record ''charger1''
                = (set_schedules ?h ?sel ''charger1'', Inr ?sel)"
    unfolding calculate_next_schedules_refresh[OF rf e5]
    by (simp add: example_hass_simps example_sorted slice_from_start_def idle_record_eq Let_def)
  have ne: "?sel \<noteq> []" by simp
  show ?thesis
    unfolding body_idle_charging[OF e1 e2 e3 e4 st calc ne]
    using assms
    by (simp add: stop_raises_def example_hass_simps awaiting_start_record_def idle_record_eq)
qed

lemma example_first_tick:
  assumes "\<not> r ''stop_charging''"
  shows "fetch_states 45000000000 (example_hass CAR_IS_CHARGING [] r)
           (get_consumer_config 45000000000 [charger1]) =
     ((example_hass CAR_IS_CHARGING [] r)
        \<lparr>current_schedules_states := [''charger1'' \<mapsto>
            [\<lparr>VALUE = 50, START_TIME = 43200000000\<rparr>, \<lparr>VALUE = 51, START_TIME = 46800000000\<rparr>,
             \<lparr>VALUE = 52, START_TIME = 50400000000\<rparr>]],
          commands := [Stop (Some GO_E) ''charger1'']\<rparr>,
      [(''charger1'', awaiting_start_record)], None)"
proof -
  have d: "get_consumer_config 45000000000 [charger1] = [(''charger1'', idle_record)]"
    by (simp add: gcc1 idle_record_def charger1_def)
  note b = example_first_body[of r, OF assms]
  show ?thesis
    unfolding d
    by (simp add: fetch_states_def b Let_def) (simp add: set_schedules_def example_hass_def)
qed

lemma first_tick_eq:
  "first_tick =
     ((example_hass CAR_IS_CHARGING [] (\<lambda>service. service = ''start_charging''))
        \<lparr>current_schedules_states := [''charger1'' \<mapsto>
            [\<lparr>VALUE = 50, START_TIME = 43200000000\<rparr>, \<lparr>VALUE = 51, START_TIME = 46800000000\<rparr>,
             \<lparr>VALUE = 52, START_TIME = 50400000000\<rparr>]],
          commands := [Stop (Some GO_E) ''charger1'']\<rparr>,
      [(''charger1'', awaiting_start_record)], None)"
  unfolding first_tick_def by (rule example_first_tick) simp

lemma second_tick_eq:
  "fst (snd second_tick) =
     [(''charger1'', awaiting_start_record\<lparr>CURRENT_SCHEDULE_START := Some 43200000000,
                                           CURRENT_SCHEDULE_END := Some 46800000000\<rparr>)]
   \<and> snd (snd second_tick) = Some ServiceError
   \<and> commands (fst second_tick)
       = [Stop (Some GO_E) ''charger1'', Start (Some GO_E) ''charger1'']"
proof -
  let ?s = "\<lparr>VALUE = 50::int, START_TIME = 43200000000\<rparr>"
  let ?rest = "[\<lparr>VALUE = 51::int, START_TIME = 46800000000\<rparr>, \<lparr>VALUE = 52, START_TIME = 50400000000\<rparr>]"
  let ?h = "(example_hass CAR_IS_CHARGING [] (\<lambda>service. service = ''start_charging''))
        \<lparr>current_schedules_states := [''charger1'' \<mapsto> ?s # ?rest],
          commands := [Stop (Some GO_E) ''charger1''],
          car_status_states := [''charger1'' \<mapsto> CHARGING_FINISHED]\<rparr>"
  have a1: "ENABLED awaiting_start_record" and a2: "CHARGING_SCHEDULES_ENABLED awaiting_start_record"
    and a3: "START_SCHEDULED_CHARGING awaiting_start_record"
    by (simp_all add: awaiting_start_record_eq)
  have h4: "car_status_of ?h ''charger1'' = CHARGING_FINISHED"
    by (simp add: car_status_of_def)
  have h5: "get_schedules ?h ''charger1'' = ?s # ?rest"
    by (simp add: get_schedules_def)
  have w1: "START_TIME ?s < 45010000000" by simp
  have w2: "45010000000 < START_TIME ?s + timedelta_hours 1"
    by (simp add: timedelta_hours_def usec_per_hour_def usec_per_second_def)
  have sr: "start_raises ?h awaiting_start_record ''charger1''"
    by (simp add: start_raises_def awaiting_start_record_eq example_hass_def)
  note b = body_confirmed_start[OF a1 a2 a3 h4 h5 w1 w2]
  show ?thesis
    unfolding second_tick_def first_tick_eq
    by (simp add: fetch_states_def b sr Let_def set_schedules_def timedelta_hours_def
        usec_per_hour_def usec_per_second_def)
       (simp add: awaiting_start_record_eq)
qed

lemma precise_record_eq:
  "precise_record = \<lparr>ENABLED = True, CONF_INPUT_SOURCE = Some ''smartenergy_awattar'',
     CONF_OUTPUT_SOURCE = Some GO_E, CONF_SMART_ENERGY_MODE = Some PRECISE,
     CURRENT_SCHEDULE_START = None, CURRENT_SCHEDULE_END = None,
     CURRENT_CYCLE_HOURS_TO_CHARGE = Some 0,
     CURRENT_CYCLE_CHARGING_TIME_WINDOW_HOURS = Some 5,
     CURRENT_CYCLE_CHARGING_TIME_WINDOW_DATE = Some 63000000000,
     START_SCHEDULED_CHARGING = False, CHARGING_SCHEDULES_ENABLED = True\<rparr>"
  by (simp add: precise_record_def consumer_record_def charger0_def Let_def GO_E_def PRECISE_def
      SIMPLE_def calculate_next_time_window_def timedelta_hours_def usec_per_hour_def
      usec_per_second_def)

lemma example_two_consumers:
  "get_consumer_config 45000000000 [charger0, charger1]
     = [(''charger0'', precise_record), (''charger1'', idle_record)]"
  by (simp add: get_consumer_config_def precise_record_def idle_record_def charger0_def charger1_def)

lemma example_empty_schedule_breaks:
  "fetch_states_body now (example_hass st stored r) ''charger0'' precise_record
     = (set_schedules (example_hass st stored r) [] ''charger0'', precise_record, Break)"
proof -
  let ?h = "example_hass st stored r"
  have cs: "car_status_of ?h ''charger0'' = []"
    by (simp add: car_status_of_def example_hass_def)
  have rf: "([] \<noteq> CAR_IS_CHARGING \<and> \<not> START_SCHEDULED_CHARGING precise_record)
            \<or> get_schedules ?h ''charger0'' = []"
    by (simp add: precise_record_eq CAR_IS_CHARGING_def)
  have dl: "CURRENT_CYCLE_CHARGING_TIME_WINDOW_DATE precise_record = Some 63000000000"
    by (simp add: precise_record_eq)
  have calc: "calculate_next_schedules ?h [] precise_record ''charger0''
                = (set_schedules ?h [] ''charger0'', Inr [])"
    unfolding calculate_next_schedules_refresh[OF rf dl]
    by (simp add: Let_def slice_from_start_def precise_record_eq)
  show ?thesis
    by (simp add: fetch_states_body_def cs calc Let_def) (simp add: precise_record_eq)
qed

lemma slot_key_le: "slot_key a \<le> slot_key b \<longleftrightarrow> price_then_time a b"
  by (auto simp add: slot_key_def price_then_time_def)

lemma sort_key_price_then_time: "sorted_wrt price_then_time (sort_key slot_key xs)"
proof -
  have "sorted (map slot_key (sort_key slot_key xs))" by simp
  then show ?thesis by (simp add: sorted_map slot_key_le)
qed

lemma ranking_hass_eligible:
  "eligible 54000000000 (case FORECAST ranking_hass of None \<Rightarrow> [] | Some prices \<Rightarrow> prices) =
     [\<lparr>VALUE = 55, START_TIME = 43200000000\<rparr>, \<lparr>VALUE = 50, START_TIME = 50400000000\<rparr>,
      \<lparr>VALUE = 50, START_TIME = 46800000000\<rparr>, \<lparr>VALUE = 60, START_TIME = 54000000000\<rparr>]"
  by (simp add: eligible_def ranking_forecast_def ranking_hass_def example_hass_def)

lemma ranking_eligible:
  "eligible 54000000000 ranking_forecast =
     [\<lparr>VALUE = 55, START_TIME = 43200000000\<rparr>, \<lparr>VALUE = 50, START_TIME = 50400000000\<rparr>,
      \<lparr>VALUE = 50, START_TIME = 46800000000\<rparr>, \<lparr>VALUE = 60, START_TIME = 54000000000\<rparr>]"
  by (simp add: eligible_def ranking_forecast_def)

lemma ranking_sorted:
  "sort_key slot_key
     [\<lparr>VALUE = 55::int, START_TIME = 43200000000\<rparr>, \<lparr>VALUE = 50, START_TIME = 50400000000\<rparr>,
      \<lparr>VALUE = 50, START_TIME = 46800000000\<rparr>, \<lparr>VALUE = 60, START_TIME = 54000000000\<rparr>] =
     [\<lparr>VALUE = 50, START_TIME = 46800000000\<rparr>, \<lparr>VALUE = 50, START_TIME = 50400000000\<rparr>,
      \<lparr>VALUE = 55, START_TIME = 43200000000\<rparr>, \<lparr>VALUE = 60, START_TIME = 54000000000\<rparr>]"
  by (simp add: slot_key_def)

lemma ranking_record_simps:
  "CURRENT_CYCLE_HOURS_TO_CHARGE (ranking_record q) = Some q"
  "CURRENT_CYCLE_CHARGING_TIME_WINDOW_DATE (ranking_record q) = Some 54000000000"
  "\<not> START_SCHEDULED_CHARGING (ranking_record q)"
  by (simp_all add: ranking_record_def idle_record_eq)

lemma ranking_hass_simps:
  "FORECAST ranking_hass = Some ranking_forecast"
  "get_schedules ranking_hass ''charger1'' = []"
  by (simp_all add: ranking_hass_def get_schedules_def example_hass_def)


section \<open>The claims\<close>

text \<open>
  C1: two enabled consumers in one tick. The first, \<open>charger0\<close>, has the quota 0, so its
  refreshed schedules are empty; the second, \<open>charger1\<close>, has a charging device and no
  active slot. The tick ends at the first consumer: no command is issued and the record of
  \<open>charger1\<close> is as it was. Ticked alone, \<open>charger1\<close> gets its stop command and waits for
  its start.
\<close>

theorem empty_schedule_ends_the_tick:
  "(case fetch_states 45000000000 (example_hass CAR_IS_CHARGING [] (\<lambda>_. False))
           (get_consumer_config 45000000000 [charger0, charger1]) of
      (hass', data', r) \<Rightarrow>
        commands hass' = [] \<and> r = None
        \<and> data' = [(''charger0'', precise_record), (''charger1'', idle_record)])
   \<and> (case fetch_states 45000000000 (example_hass CAR_IS_CHARGING [] (\<lambda>_. False))
             (get_consumer_config 45000000000 [charger1]) of
        (hass', data', r) \<Rightarrow>
          commands hass' = [Stop (Some GO_E) ''charger1''] \<and> r = None
          \<and> data' = [(''charger1'', awaiting_start_record)])"
proof -
  have a: "case fetch_states 45000000000 (example_hass CAR_IS_CHARGING [] (\<lambda>_. False))
           (get_consumer_config 45000000000 [charger0, charger1]) of
      (hass', data', r) \<Rightarrow>
        commands hass' = [] \<and> r = None
        \<and> data' = [(''charger0'', precise_record), (''charger1'', idle_record)]"
    unfolding example_two_consumers
    by (simp add: fetch_states_def example_empty_schedule_breaks Let_def set_schedules_def
        example_hass_simps)
  have b: "case fetch_states 45000000000 (example_hass CAR_IS_CHARGING [] (\<lambda>_. False))
             (get_consumer_config 45000000000 [charger1]) of
        (hass', data', r) \<Rightarrow>
          commands hass' = [Stop (Some GO_E) ''charger1''] \<and> r = None
          \<and> data' = [(''charger1'', awaiting_start_record)]"
    by (simp add: example_first_tick)
  show ?thesis using a b by blast
qed

text \<open>
  C2: when \<open>calculate_next_schedules\<close> refreshes the schedules of a consumer whose deadline
  is \<open>d\<close> and whose quota is the integer \<open>q\<close>, the forecast entries that start no later than
  \<open>d\<close> are ranked by price ascending and then by start time ascending (a permutation of
  them, in that order), and the selection is a prefix of the ranking: its first \<open>q\<close> entries
  for \<open>q \<ge> 0\<close>, so of length the smaller of \<open>q\<close> and the number of eligible entries; the
  ranking without its last \<open>-q\<close> entries for \<open>q < 0\<close>. The selection is in the same order, all
  its entries start no later than \<open>d\<close>, and it is empty exactly when there is no eligible
  entry (as when the forecast is not available), when \<open>q\<close> is 0, or when \<open>q\<close> is negative
  and there are at most \<open>-q\<close> eligible entries.
\<close>

theorem slot_selection_ranked:
  fixes hass :: "('p::linorder) hass"
  assumes "(car_status \<noteq> CAR_IS_CHARGING \<and> \<not> START_SCHEDULED_CHARGING sd)
           \<or> get_schedules hass consumer = []"
    and "CURRENT_CYCLE_CHARGING_TIME_WINDOW_DATE sd = Some d"
    and "CURRENT_CYCLE_HOURS_TO_CHARGE sd = Some q"
  shows "let el = eligible d (case FORECAST hass of None \<Rightarrow> [] | Some prices \<Rightarrow> prices);
             ranked = sort_key slot_key el;
             sel = take (nat (if q < 0 then int (length el) + q else q)) ranked
         in find_forecast_dates hass (Some d) = Inr ranked
            \<and> mset ranked = mset el
            \<and> sorted_wrt price_then_time ranked
            \<and> calculate_next_schedules hass car_status sd consumer
                = (set_schedules hass sel consumer, Inr sel)
            \<and> sorted_wrt price_then_time sel
            \<and> set sel \<subseteq> set el
            \<and> (\<forall>s \<in> set sel. START_TIME s \<le> d)
            \<and> (0 \<le> q \<longrightarrow> int (length sel) = min q (int (length el)))
            \<and> (q < 0 \<longrightarrow> int (length sel) = max 0 (int (length el) + q))
            \<and> (FORECAST hass = None \<longrightarrow> sel = [])
            \<and> (sel = [] \<longleftrightarrow> el = [] \<or> q = 0 \<or> (q < 0 \<and> int (length el) \<le> - q))"
proof -
  define el where "el = eligible d (case FORECAST hass of None \<Rightarrow> [] | Some prices \<Rightarrow> prices)"
  define ranked where "ranked = sort_key slot_key el"
  define sel where "sel = take (nat (if q < 0 then int (length el) + q else q)) ranked"
  have len: "length ranked = length el" by (simp add: ranked_def)
  have 0: "find_forecast_dates hass (Some d) = Inr ranked"
    by (simp add: find_forecast_dates_Some el_def ranked_def)
  have m: "mset ranked = mset el" by (simp add: ranked_def)
  have sr: "sorted_wrt price_then_time ranked"
    unfolding ranked_def by (rule sort_key_price_then_time)
  have s: "slice_from_start ranked (Some q) = sel"
    by (simp add: slice_from_start_def sel_def len)
  have 1: "calculate_next_schedules hass car_status sd consumer
             = (set_schedules hass sel consumer, Inr sel)"
    using calculate_next_schedules_refresh[OF assms(1,2)] assms(3) s
    by (simp add: Let_def el_def ranked_def)
  have 2: "sorted_wrt price_then_time sel"
    unfolding sel_def using sr by (rule sorted_wrt_take)
  have "set sel \<subseteq> set ranked" unfolding sel_def by (rule set_take_subset)
  then have 3: "set sel \<subseteq> set el" by (simp add: ranked_def)
  then have 4: "\<forall>s \<in> set sel. START_TIME s \<le> d"
    using eligible_le unfolding el_def by blast
  have 5: "0 \<le> q \<longrightarrow> int (length sel) = min q (int (length el))"
    unfolding sel_def by (auto simp add: len min_def)
  have 6: "q < 0 \<longrightarrow> int (length sel) = max 0 (int (length el) + q)"
    unfolding sel_def by (auto simp add: len min_def max_def)
  have 7: "FORECAST hass = None \<longrightarrow> sel = []"
    unfolding sel_def ranked_def el_def by (auto simp add: eligible_def)
  have e: "el = [] \<longleftrightarrow> ranked = []"
    using len by (metis length_0_conv)
  have 8: "sel = [] \<longleftrightarrow> el = [] \<or> q = 0 \<or> (q < 0 \<and> int (length el) \<le> - q)"
    unfolding sel_def e by (auto simp add: len[symmetric])
  show ?thesis
    unfolding Let_def el_def[symmetric] ranked_def[symmetric] sel_def[symmetric]
    using 0 m sr 1 2 3 4 5 6 7 8 by blast
qed

theorem slot_selection_ranked_witness:
  "(CHARGING_FINISHED \<noteq> CAR_IS_CHARGING \<and> \<not> START_SCHEDULED_CHARGING (ranking_record 3))
   \<and> CURRENT_CYCLE_CHARGING_TIME_WINDOW_DATE (ranking_record 3) = Some 54000000000
   \<and> CURRENT_CYCLE_HOURS_TO_CHARGE (ranking_record 3) = Some 3
   \<and> FORECAST ranking_hass = Some ranking_forecast
   \<and> length ranking_forecast = 5
   \<and> eligible 54000000000 ranking_forecast =
        [\<lparr>VALUE = 55, START_TIME = 43200000000\<rparr>, \<lparr>VALUE = 50, START_TIME = 50400000000\<rparr>,
         \<lparr>VALUE = 50, START_TIME = 46800000000\<rparr>, \<lparr>VALUE = 60, START_TIME = 54000000000\<rparr>]
   \<and> snd (calculate_next_schedules ranking_hass CHARGING_FINISHED (ranking_record 3) ''charger1'')
       = Inr [\<lparr>VALUE = 50, START_TIME = 46800000000\<rparr>, \<lparr>VALUE = 50, START_TIME = 50400000000\<rparr>,
              \<lparr>VALUE = 55, START_TIME = 43200000000\<rparr>]
   \<and> CURRENT_CYCLE_HOURS_TO_CHARGE (ranking_record (- 3)) = Some (- 3)
   \<and> snd (calculate_next_schedules ranking_hass CHARGING_FINISHED (ranking_record (- 3)) ''charger1'')
       = Inr [\<lparr>VALUE = 50, START_TIME = 46800000000\<rparr>]
   \<and> snd (calculate_next_schedules ranking_hass CHARGING_FINISHED (ranking_record (- 4)) ''charger1'')
       = Inr []"
proof -
  have r: "\<And>q. (CHARGING_FINISHED \<noteq> CAR_IS_CHARGING \<and> \<not> START_SCHEDULED_CHARGING (ranking_record q))"
    by (simp add: status_neq ranking_record_simps)
  then have r': "\<And>q. (CHARGING_FINISHED \<noteq> CAR_IS_CHARGING \<and> \<not> START_SCHEDULED_CHARGING (ranking_record q))
                 \<or> get_schedules ranking_hass ''charger1'' = []" by blast
  have l: "length ranking_forecast = 5" by (simp add: ranking_forecast_def)
  have c3: "snd (calculate_next_schedules ranking_hass CHARGING_FINISHED (ranking_record 3) ''charger1'')
       = Inr [\<lparr>VALUE = 50, START_TIME = 46800000000\<rparr>, \<lparr>VALUE = 50, START_TIME = 50400000000\<rparr>,
              \<lparr>VALUE = 55, START_TIME = 43200000000\<rparr>]"
    using slot_selection_ranked[OF r' ranking_record_simps(2) ranking_record_simps(1), of 3]
    unfolding Let_def ranking_hass_eligible ranking_sorted by simp
  have cm3: "snd (calculate_next_schedules ranking_hass CHARGING_FINISHED (ranking_record (- 3)) ''charger1'')
       = Inr [\<lparr>VALUE = 50, START_TIME = 46800000000\<rparr>]"
    using slot_selection_ranked[OF r' ranking_record_simps(2) ranking_record_simps(1), of "- 3"]
    unfolding Let_def ranking_hass_eligible ranking_sorted by simp
  have cm4: "snd (calculate_next_schedules ranking_hass CHARGING_FINISHED (ranking_record (- 4)) ''charger1'')
       = Inr []"
    using slot_selection_ranked[OF r' ranking_record_simps(2) ranking_record_simps(1), of "- 4"]
    unfolding Let_def ranking_hass_eligible ranking_sorted by simp
  show ?thesis
    using r[of 3] ranking_record_simps(2)[of 3] ranking_record_simps(1)[of 3]
      ranking_record_simps(1)[of "- 3"] ranking_hass_simps(1) l ranking_eligible c3 cm3 cm4
    by blast
qed

text \<open>
  With the quota -1 the slice drops the last of the three eligible entries and keeps two.
\<close>

theorem negative_quota_counterexample:
  "CURRENT_CYCLE_HOURS_TO_CHARGE negative_quota_record = Some (- 1)
   \<and> CURRENT_CYCLE_CHARGING_TIME_WINDOW_DATE negative_quota_record = Some 111600000000
   \<and> \<not> START_SCHEDULED_CHARGING negative_quota_record
   \<and> CHARGING_FINISHED \<noteq> CAR_IS_CHARGING
   \<and> snd (calculate_next_schedules (example_hass CHARGING_FINISHED [] (\<lambda>_. False))
             CHARGING_FINISHED negative_quota_record ''charger1'')
       = Inr [\<lparr>VALUE = 50, START_TIME = 43200000000\<rparr>, \<lparr>VALUE = 51, START_TIME = 46800000000\<rparr>]"
proof -
  let ?h = "example_hass CHARGING_FINISHED [] (\<lambda>_. False)"
  have q: "CURRENT_CYCLE_HOURS_TO_CHARGE negative_quota_record = Some (- 1)"
    and d: "CURRENT_CYCLE_CHARGING_TIME_WINDOW_DATE negative_quota_record = Some 111600000000"
    and f: "\<not> START_SCHEDULED_CHARGING negative_quota_record"
    by (simp_all add: negative_quota_record_def idle_record_eq)
  have r': "(CHARGING_FINISHED \<noteq> CAR_IS_CHARGING \<and> \<not> START_SCHEDULED_CHARGING negative_quota_record)
                 \<or> get_schedules ?h ''charger1'' = []"
    using f status_neq by blast
  have c: "snd (calculate_next_schedules ?h CHARGING_FINISHED negative_quota_record ''charger1'')
       = Inr [\<lparr>VALUE = 50, START_TIME = 43200000000\<rparr>, \<lparr>VALUE = 51, START_TIME = 46800000000\<rparr>]"
    unfolding calculate_next_schedules_refresh[OF r' d]
    by (simp add: Let_def example_hass_simps example_sorted slice_from_start_def q)
  show ?thesis using q d f status_neq c by blast
qed

text \<open>
  C3: an enabled consumer awaiting its start (\<open>START_SCHEDULED_CHARGING\<close> set), whose device
  reports "Charging finished, car can be disconnected", with \<open>now\<close> strictly between the
  start time of the head of its stored schedules and one hour later: the pass through the
  loop body calls the controller's \<open>start_charging\<close> exactly once, stores the schedules
  without their head, sets \<open>CURRENT_SCHEDULE_START\<close> to the head's start time and
  \<open>CURRENT_SCHEDULE_END\<close> to one hour later, and clears \<open>START_SCHEDULED_CHARGING\<close> unless
  the start service call raises (then the flag stays set and the exception leaves the tick).
\<close>

theorem confirmed_start_in_open_window:
  fixes hass :: "('p::linorder) hass"
  assumes "ENABLED sd" and "CHARGING_SCHEDULES_ENABLED sd"
    and "START_SCHEDULED_CHARGING sd"
    and "car_status_of hass consumer = CHARGING_FINISHED"
    and "get_schedules hass consumer = s # rest"
    and "START_TIME s < now" and "now < START_TIME s + timedelta_hours 1"
  shows "fetch_states_body now hass consumer sd =
     ((set_schedules hass rest consumer)
        \<lparr>commands := commands hass @ [Start (CONF_OUTPUT_SOURCE sd) consumer]\<rparr>,
      sd\<lparr>CURRENT_SCHEDULE_START := Some (START_TIME s),
         CURRENT_SCHEDULE_END := Some (START_TIME s + timedelta_hours 1),
         START_SCHEDULED_CHARGING := start_raises hass sd consumer\<rparr>,
      if start_raises hass sd consumer then Raise ServiceError else Next)"
  using assms by (rule body_confirmed_start)

theorem confirmed_start_in_open_window_witness:
  "ENABLED awaiting_start_record \<and> CHARGING_SCHEDULES_ENABLED awaiting_start_record
   \<and> START_SCHEDULED_CHARGING awaiting_start_record
   \<and> car_status_of (example_hass CHARGING_FINISHED example_slots (\<lambda>_. False)) ''charger1''
       = CHARGING_FINISHED
   \<and> get_schedules (example_hass CHARGING_FINISHED example_slots (\<lambda>_. False)) ''charger1''
       = \<lparr>VALUE = 50, START_TIME = 43200000000\<rparr> # [\<lparr>VALUE = 51, START_TIME = 46800000000\<rparr>]
   \<and> START_TIME \<lparr>VALUE = 50::int, START_TIME = 43200000000\<rparr> < 45000000000
   \<and> 45000000000 < START_TIME \<lparr>VALUE = 50::int, START_TIME = 43200000000\<rparr> + timedelta_hours 1
   \<and> (case fetch_states_body 45000000000
              (example_hass CHARGING_FINISHED example_slots (\<lambda>_. False)) ''charger1''
              awaiting_start_record of
         (hass', sd', fl) \<Rightarrow>
           commands hass' = [Start (Some GO_E) ''charger1'']
           \<and> get_schedules hass' ''charger1'' = [\<lparr>VALUE = 51, START_TIME = 46800000000\<rparr>]
           \<and> CURRENT_SCHEDULE_START sd' = Some 43200000000
           \<and> CURRENT_SCHEDULE_END sd' = Some 46800000000
           \<and> \<not> START_SCHEDULED_CHARGING sd' \<and> fl = Next)"
proof -
  let ?h = "example_hass CHARGING_FINISHED example_slots (\<lambda>_. False)"
  let ?s = "\<lparr>VALUE = 50::int, START_TIME = 43200000000\<rparr>"
  have h1: "ENABLED awaiting_start_record" and h2: "CHARGING_SCHEDULES_ENABLED awaiting_start_record"
    and h3: "START_SCHEDULED_CHARGING awaiting_start_record"
    by (simp_all add: awaiting_start_record_def idle_record_eq)
  have h4: "car_status_of ?h ''charger1'' = CHARGING_FINISHED"
    by (simp add: example_hass_simps)
  have h5: "get_schedules ?h ''charger1'' = ?s # [\<lparr>VALUE = 51, START_TIME = 46800000000\<rparr>]"
    by (simp add: example_hass_simps example_slots_def)
  have h6: "START_TIME ?s < 45000000000" by simp
  have h7: "45000000000 < START_TIME ?s + timedelta_hours 1"
    by (simp add: timedelta_hours_def usec_per_hour_def usec_per_second_def)
  have nr: "\<not> start_raises ?h awaiting_start_record ''charger1''"
    by (simp add: start_raises_def example_hass_simps)
  note r = confirmed_start_in_open_window[OF h1 h2 h3 h4 h5 h6 h7]
  have c: "(case fetch_states_body 45000000000 ?h ''charger1'' awaiting_start_record of
         (hass', sd', fl) \<Rightarrow>
           commands hass' = [Start (Some GO_E) ''charger1'']
           \<and> get_schedules hass' ''charger1'' = [\<lparr>VALUE = 51, START_TIME = 46800000000\<rparr>]
           \<and> CURRENT_SCHEDULE_START sd' = Some 43200000000
           \<and> CURRENT_SCHEDULE_END sd' = Some 46800000000
           \<and> \<not> START_SCHEDULED_CHARGING sd' \<and> fl = Next)"
    unfolding r
    by (simp add: start_raises_def example_hass_simps set_schedules_def get_schedules_def
        awaiting_start_record_def idle_record_eq timedelta_hours_def usec_per_hour_def
        usec_per_second_def)
  show ?thesis using h1 h2 h3 h4 h5 h6 h7 c by blast
qed

text \<open>
  At \<open>now\<close> equal to the head slot's start time nothing is started (the comparison with
  the start time is strict), and a start whose service call raises leaves the flag set.
\<close>

theorem start_at_slot_start_counterexample:
  "ENABLED awaiting_start_record \<and> CHARGING_SCHEDULES_ENABLED awaiting_start_record
   \<and> START_SCHEDULED_CHARGING awaiting_start_record
   \<and> car_status_of (example_hass CHARGING_FINISHED example_slots (\<lambda>_. False)) ''charger1''
       = CHARGING_FINISHED
   \<and> get_schedules (example_hass CHARGING_FINISHED example_slots (\<lambda>_. False)) ''charger1''
       = \<lparr>VALUE = 50, START_TIME = 43200000000\<rparr> # [\<lparr>VALUE = 51, START_TIME = 46800000000\<rparr>]
   \<and> fetch_states_body 43200000000
        (example_hass CHARGING_FINISHED example_slots (\<lambda>_. False)) ''charger1''
        awaiting_start_record
       = (example_hass CHARGING_FINISHED example_slots (\<lambda>_. False), awaiting_start_record, Next)
   \<and> commands (example_hass CHARGING_FINISHED example_slots (\<lambda>_. False)) = []
   \<and> (case fetch_states_body 45000000000
              (example_hass CHARGING_FINISHED example_slots (\<lambda>service. service = ''start_charging''))
              ''charger1'' awaiting_start_record of
         (hass', sd', fl) \<Rightarrow> START_SCHEDULED_CHARGING sd' \<and> fl = Raise ServiceError)"
proof -
  let ?h = "example_hass CHARGING_FINISHED example_slots (\<lambda>_. False)"
  let ?hr = "example_hass CHARGING_FINISHED example_slots (\<lambda>service. service = ''start_charging'')"
  let ?s = "\<lparr>VALUE = 50::int, START_TIME = 43200000000\<rparr>"
  have h1: "ENABLED awaiting_start_record" and h2: "CHARGING_SCHEDULES_ENABLED awaiting_start_record"
    and h3: "START_SCHEDULED_CHARGING awaiting_start_record"
    by (simp_all add: awaiting_start_record_def idle_record_eq)
  have h4: "car_status_of ?h ''charger1'' = CHARGING_FINISHED"
    by (simp add: example_hass_simps)
  have h5: "get_schedules ?h ''charger1'' = ?s # [\<lparr>VALUE = 51, START_TIME = 46800000000\<rparr>]"
    by (simp add: example_hass_simps example_slots_def)
  have h4r: "car_status_of ?hr ''charger1'' = CHARGING_FINISHED"
    by (simp add: example_hass_simps)
  have h5r: "get_schedules ?hr ''charger1'' = ?s # [\<lparr>VALUE = 51, START_TIME = 46800000000\<rparr>]"
    by (simp add: example_hass_simps example_slots_def)
  have a: "fetch_states_body 43200000000 ?h ''charger1'' awaiting_start_record
             = (?h, awaiting_start_record, Next)"
    by (rule body_outside_window[OF h1 h2 h3 h4 h5]) simp
  have h7: "45000000000 < START_TIME ?s + timedelta_hours 1"
    by (simp add: timedelta_hours_def usec_per_hour_def usec_per_second_def)
  have sr: "start_raises ?hr awaiting_start_record ''charger1''"
    by (simp add: start_raises_def example_hass_simps awaiting_start_record_def idle_record_eq)
  have b: "(case fetch_states_body 45000000000 ?hr ''charger1'' awaiting_start_record of
         (hass', sd', fl) \<Rightarrow> START_SCHEDULED_CHARGING sd' \<and> fl = Raise ServiceError)"
    using body_confirmed_start[OF h1 h2 h3 h4r h5r _ h7] sr by simp
  show ?thesis using h1 h2 h3 h4 h5 a b by (simp add: example_hass_simps)
qed

text \<open>
  C4: an enabled consumer with an active slot (\<open>CURRENT_SCHEDULE_START\<close> and
  \<open>CURRENT_SCHEDULE_END\<close> set, no start pending) whose device reports "Car is charging",
  whose schedules after the refresh step are not empty, with \<open>now\<close> later than
  \<open>CURRENT_SCHEDULE_END\<close>: the pass through the loop body calls the controller's
  \<open>stop_charging\<close> exactly once and, unless the stop service call raises, sets
  \<open>START_SCHEDULED_CHARGING\<close> and clears both ends of the slot.
\<close>

theorem expired_slot_stop_when_charging:
  fixes hass :: "('p::linorder) hass"
  assumes "ENABLED sd" and "CHARGING_SCHEDULES_ENABLED sd"
    and "\<not> START_SCHEDULED_CHARGING sd"
    and "CURRENT_SCHEDULE_START sd = Some a" and "CURRENT_SCHEDULE_END sd = Some e"
    and "e < now"
    and "car_status_of hass consumer = CAR_IS_CHARGING"
    and "calculate_next_schedules hass CAR_IS_CHARGING sd consumer = (hass1, Inr schedules)"
    and "schedules \<noteq> []"
  shows "fetch_states_body now hass consumer sd =
     (hass1\<lparr>commands := commands hass @ [Stop (CONF_OUTPUT_SOURCE sd) consumer]\<rparr>,
      if stop_raises hass sd consumer then sd
      else sd\<lparr>CURRENT_SCHEDULE_START := None, CURRENT_SCHEDULE_END := None,
              START_SCHEDULED_CHARGING := True\<rparr>,
      if stop_raises hass sd consumer then Raise ServiceError else Next)"
  using body_active_charging[OF assms(1-5) assms(7-9), of now] assms(6) by simp

theorem expired_slot_stop_when_charging_witness:
  "ENABLED active_record \<and> CHARGING_SCHEDULES_ENABLED active_record
   \<and> \<not> START_SCHEDULED_CHARGING active_record
   \<and> CURRENT_SCHEDULE_START active_record = Some 43200000000
   \<and> CURRENT_SCHEDULE_END active_record = Some 46800000000
   \<and> (46800000000::int) < 46801000000
   \<and> car_status_of (example_hass CAR_IS_CHARGING example_slots (\<lambda>_. False)) ''charger1''
       = CAR_IS_CHARGING
   \<and> calculate_next_schedules (example_hass CAR_IS_CHARGING example_slots (\<lambda>_. False))
        CAR_IS_CHARGING active_record ''charger1''
       = (example_hass CAR_IS_CHARGING example_slots (\<lambda>_. False), Inr example_slots)
   \<and> example_slots \<noteq> []
   \<and> (case fetch_states_body 46801000000
              (example_hass CAR_IS_CHARGING example_slots (\<lambda>_. False)) ''charger1''
              active_record of
         (hass', sd', fl) \<Rightarrow>
           commands hass' = [Stop (Some GO_E) ''charger1'']
           \<and> CURRENT_SCHEDULE_START sd' = None \<and> CURRENT_SCHEDULE_END sd' = None
           \<and> START_SCHEDULED_CHARGING sd' \<and> fl = Next)"
proof -
  let ?h = "example_hass CAR_IS_CHARGING example_slots (\<lambda>_. False)"
  have h1: "ENABLED active_record" and h2: "CHARGING_SCHEDULES_ENABLED active_record"
    and h3: "\<not> START_SCHEDULED_CHARGING active_record"
    and h4: "CURRENT_SCHEDULE_START active_record = Some 43200000000"
    and h5: "CURRENT_SCHEDULE_END active_record = Some 46800000000"
    by (simp_all add: active_record_eq)
  have h6: "(46800000000::int) < 46801000000" by simp
  have h7: "car_status_of ?h ''charger1'' = CAR_IS_CHARGING" by (simp add: example_hass_simps)
  have h9: "example_slots \<noteq> []" by (simp add: example_slots_def)
  have h8: "calculate_next_schedules ?h CAR_IS_CHARGING active_record ''charger1''
              = (?h, Inr example_slots)"
    by (rule example_keep[OF h9])
  note r = expired_slot_stop_when_charging[OF h1 h2 h3 h4 h5 h6 h7 h8 h9]
  have c: "(case fetch_states_body 46801000000 ?h ''charger1'' active_record of
         (hass', sd', fl) \<Rightarrow>
           commands hass' = [Stop (Some GO_E) ''charger1'']
           \<and> CURRENT_SCHEDULE_START sd' = None \<and> CURRENT_SCHEDULE_END sd' = None
           \<and> START_SCHEDULED_CHARGING sd' \<and> fl = Next)"
    unfolding r by (simp add: stop_raises_def example_hass_simps active_record_eq)
  show ?thesis using h1 h2 h3 h4 h5 h6 h7 h8 h9 c by blast
qed

text \<open>
  With the device reporting "Charging finished, car can be disconnected" the expired slot
  is stopped and cleared, and \<open>START_SCHEDULED_CHARGING\<close> stays unset.
\<close>

theorem expired_slot_ready_device_counterexample:
  "ENABLED active_record \<and> CHARGING_SCHEDULES_ENABLED active_record
   \<and> CURRENT_SCHEDULE_START active_record = Some 43200000000
   \<and> CURRENT_SCHEDULE_END active_record = Some 46800000000
   \<and> (46800000000::int) < 46801000000
   \<and> car_status_of (example_hass CHARGING_FINISHED example_slots (\<lambda>_. False)) ''charger1''
       = CHARGING_FINISHED
   \<and> (case fetch_states_body 46801000000
              (example_hass CHARGING_FINISHED example_slots (\<lambda>_. False)) ''charger1''
              active_record of
         (hass', sd', fl) \<Rightarrow>
           commands hass' = [Stop (Some GO_E) ''charger1'']
           \<and> CURRENT_SCHEDULE_START sd' = None \<and> CURRENT_SCHEDULE_END sd' = None
           \<and> \<not> START_SCHEDULED_CHARGING sd' \<and> fl = Next)"
proof -
  let ?h = "example_hass CHARGING_FINISHED example_slots (\<lambda>_. False)"
  have h1: "ENABLED active_record" and h2: "CHARGING_SCHEDULES_ENABLED active_record"
    and h3: "\<not> START_SCHEDULED_CHARGING active_record"
    and h4: "CURRENT_SCHEDULE_START active_record = Some 43200000000"
    and h5: "CURRENT_SCHEDULE_END active_record = Some 46800000000"
    by (simp_all add: active_record_eq)
  have h7: "car_status_of ?h ''charger1'' = CHARGING_FINISHED" by (simp add: example_hass_simps)
  have h7': "car_status_of ?h ''charger1'' \<noteq> CAR_IS_CHARGING" by (simp add: h7 status_neq)
  have h8: "calculate_next_schedules ?h (car_status_of ?h ''charger1'') active_record ''charger1''
       = (set_schedules ?h
          [\<lparr>VALUE = 50, START_TIME = 43200000000\<rparr>, \<lparr>VALUE = 51, START_TIME = 46800000000\<rparr>,
           \<lparr>VALUE = 52, START_TIME = 50400000000\<rparr>] ''charger1'',
        Inr [\<lparr>VALUE = 50, START_TIME = 43200000000\<rparr>, \<lparr>VALUE = 51, START_TIME = 46800000000\<rparr>,
           \<lparr>VALUE = 52, START_TIME = 50400000000\<rparr>])"
    unfolding h7 by (rule example_refresh_ready)
  have c: "(case fetch_states_body 46801000000 ?h ''charger1'' active_record of
         (hass', sd', fl) \<Rightarrow>
           commands hass' = [Stop (Some GO_E) ''charger1'']
           \<and> CURRENT_SCHEDULE_START sd' = None \<and> CURRENT_SCHEDULE_END sd' = None
           \<and> \<not> START_SCHEDULED_CHARGING sd' \<and> fl = Next)"
    unfolding body_not_charging[OF h1 h2 h3 h7' h8, of 46801000000, simplified]
    by (simp add: stop_raises_def example_hass_simps active_record_eq)
  show ?thesis using h1 h2 h4 h5 h7 c by simp
qed

text \<open>
  C5: every SIMPLE-mode record built by \<open>get_consumer_config\<close> has the quota 4 and, as its
  deadline, 07:00 of the calendar day after \<open>now\<close>. That deadline is always later than
  \<open>now\<close>; it is the next 07:00 strictly after \<open>now\<close> when the time of day is 07:00 or
  later, and one day after it when the time of day is before 07:00.
\<close>

theorem simple_window_is_0700_tomorrow:
  assumes "(n, sd) \<in> set (get_consumer_config now cs)"
    and "CONF_SMART_ENERGY_MODE sd = Some SIMPLE"
  shows "CURRENT_CYCLE_CHARGING_TIME_WINDOW_DATE sd
           = Some (midnight now + timedelta_days 1 + timedelta_hours 7)
       \<and> CURRENT_CYCLE_HOURS_TO_CHARGE sd = Some 4
       \<and> now < midnight now + timedelta_days 1 + timedelta_hours 7
       \<and> (timedelta_hours 7 \<le> time_of_day now \<longrightarrow>
            CURRENT_CYCLE_CHARGING_TIME_WINDOW_DATE sd = Some (next_0700_strictly_after now))
       \<and> (time_of_day now < timedelta_hours 7 \<longrightarrow>
            CURRENT_CYCLE_CHARGING_TIME_WINDOW_DATE sd
              = Some (next_0700_strictly_after now + timedelta_days 1))"
proof -
  from assms(1) obtain c where c: "c \<in> set cs" "sd = consumer_record now c"
    using get_consumer_config_mem by blast
  from assms(2) c have m: "smart_energy_mode c = Some SIMPLE"
    by (simp add: consumer_record_def Let_def)
  have d: "CURRENT_CYCLE_CHARGING_TIME_WINDOW_DATE sd
           = Some (midnight now + timedelta_days 1 + timedelta_hours 7)"
    using c m by (simp add: consumer_record_def Let_def calc_simple)
  have h: "CURRENT_CYCLE_HOURS_TO_CHARGE sd = Some 4"
    using c m by (simp add: consumer_record_def Let_def)
  have lt: "now < midnight now + timedelta_days 1 + timedelta_hours 7"
    using midnight_le(2)[of now] by (simp add: timedelta_days_def timedelta_hours_def usec_per_hour_def usec_per_second_def)
  show ?thesis using d h lt by (simp add: next_0700_strictly_after_def)
qed

theorem simple_window_is_0700_tomorrow_witness:
  "(''charger1'', consumer_record 43200000000 charger1) \<in> set (get_consumer_config 43200000000 [charger1])
   \<and> CONF_SMART_ENERGY_MODE (consumer_record 43200000000 charger1) = Some SIMPLE
   \<and> timedelta_hours 7 \<le> time_of_day 43200000000
   \<and> CURRENT_CYCLE_CHARGING_TIME_WINDOW_DATE (consumer_record 43200000000 charger1) = Some 111600000000
   \<and> CURRENT_CYCLE_HOURS_TO_CHARGE (consumer_record 43200000000 charger1) = Some 4
   \<and> next_0700_strictly_after 43200000000 = 111600000000"
proof -
  have a: "(''charger1'', consumer_record 43200000000 charger1) \<in> set (get_consumer_config 43200000000 [charger1])"
    by (simp add: gcc1 charger1_def)
  have b: "CONF_SMART_ENERGY_MODE (consumer_record 43200000000 charger1) = Some SIMPLE"
    by (simp add: consumer_record_def charger1_def SIMPLE_def Let_def)
  have t: "timedelta_hours 7 \<le> time_of_day 43200000000"
    by (simp add: timedelta_hours_def time_of_day_def usec_per_day_def usec_per_hour_def usec_per_second_def)
  have m: "midnight 43200000000 + timedelta_days 1 + timedelta_hours 7 = 111600000000"
    by (simp add: midnight_def timedelta_days_def timedelta_hours_def time_of_day_def usec_per_day_def usec_per_hour_def usec_per_second_def)
  note r = simple_window_is_0700_tomorrow[OF a b]
  have d0: "CURRENT_CYCLE_CHARGING_TIME_WINDOW_DATE (consumer_record 43200000000 charger1)
              = Some (midnight 43200000000 + timedelta_days 1 + timedelta_hours 7)"
    using r by blast
  have d1: "CURRENT_CYCLE_CHARGING_TIME_WINDOW_DATE (consumer_record 43200000000 charger1) = Some 111600000000"
    using d0 by (simp only: m)
  have d2: "CURRENT_CYCLE_CHARGING_TIME_WINDOW_DATE (consumer_record 43200000000 charger1) = Some (next_0700_strictly_after 43200000000)"
    using r t by blast
  have n: "next_0700_strictly_after 43200000000 = 111600000000"
    using d1 d2 by (simp only: option.inject)
  have h: "CURRENT_CYCLE_HOURS_TO_CHARGE (consumer_record 43200000000 charger1) = Some 4"
    using r by blast
  show ?thesis using a b t d1 h n by simp
qed

text \<open>
  At 03:00 the next 07:00 is four hours away, and the deadline built is 07:00 of the next day.
\<close>

theorem simple_window_not_next_0700_counterexample:
  "map (\<lambda>(n, sd). (n, CONF_SMART_ENERGY_MODE sd, CURRENT_CYCLE_CHARGING_TIME_WINDOW_DATE sd))
     (get_consumer_config 10800000000 [charger1]) = [(''charger1'', Some SIMPLE, Some 111600000000)]
   \<and> next_0700_strictly_after 10800000000 = 25200000000"
  by (simp add: gcc1 charger1_def consumer_record_def Let_def SIMPLE_def calculate_next_time_window_def
      replace_hour_def midnight_def timedelta_days_def timedelta_hours_def time_of_day_def
      usec_per_day_def usec_per_hour_def usec_per_second_def next_0700_strictly_after_def)

text \<open>
  C6: at 03:00, for the deadline 07:00 of the next day (the one SIMPLE mode builds at that
  time), \<open>calculate_time_window_hours\<close> gives 4, and the whole difference is 28 hours: the
  \<open>.seconds\<close> of a timedelta leaves its days out.
\<close>

theorem time_window_hours_drops_days:
  "calculate_time_window_hours 10800000000 (Some 111600000000) = Some 4
   \<and> timedelta_total_hours (111600000000 - 10800000000) = 28
   \<and> map (\<lambda>(n, sd). (CURRENT_CYCLE_CHARGING_TIME_WINDOW_DATE sd, CURRENT_CYCLE_CHARGING_TIME_WINDOW_HOURS sd))
     (get_consumer_config 10800000000 [charger1]) = [(Some 111600000000, Some 4)]"
  by (simp add: gcc1 charger1_def consumer_record_def Let_def SIMPLE_def calculate_next_time_window_def
      replace_hour_def midnight_def timedelta_days_def timedelta_hours_def time_of_day_def
      usec_per_day_def usec_per_hour_def usec_per_second_def calculate_time_window_hours_def
      timedelta_seconds_def timedelta_total_hours_def)

text \<open>
  C7: the slot invariant (\<open>CURRENT_SCHEDULE_START\<close> is \<open>None\<close> iff \<open>CURRENT_SCHEDULE_END\<close>
  is, and \<open>START_SCHEDULED_CHARGING\<close> implies that both are \<open>None\<close>) holds for every record
  that \<open>get_consumer_config\<close> builds; a pass through the loop body keeps it unless the pass
  ends in the exception of a start command, that is, unless it raises \<open>ServiceError\<close> with
  a start as the last controller call; and a whole tick keeps it for all consumers unless
  the tick ends in the exception of a start command.
\<close>

theorem slot_record_invariant_kept:
  fixes hass :: "('p::linorder) hass"
  shows
  "(\<forall>(n, sd) \<in> set (get_consumer_config created cs). slot_record_invariant sd)
   \<and> (slot_record_invariant sd
        \<and> fetch_states_body now hass consumer sd = (hass', sd', fl)
        \<and> \<not> (fl = Raise ServiceError \<and> ended_with_start (commands hass')) \<longrightarrow>
        slot_record_invariant sd')
   \<and> ((\<forall>(n, sd) \<in> set data. slot_record_invariant sd)
        \<and> fetch_states now hass data = (hass_end, data_end, r)
        \<and> \<not> (r = Some ServiceError \<and> ended_with_start (commands hass_end)) \<longrightarrow>
        (\<forall>(n, sd) \<in> set data_end. slot_record_invariant sd))"
proof (intro conjI impI)
  show "\<forall>(n, sd) \<in> set (get_consumer_config created cs). slot_record_invariant sd"
    using get_consumer_config_mem consumer_record_inv by fastforce
next
  assume h: "slot_record_invariant sd
        \<and> fetch_states_body now hass consumer sd = (hass', sd', fl)
        \<and> \<not> (fl = Raise ServiceError \<and> ended_with_start (commands hass'))"
  then have i: "slot_record_invariant sd"
    and b: "fetch_states_body now hass consumer sd = (hass', sd', fl)"
    and n: "\<not> (fl = Raise ServiceError \<and> ended_with_start (commands hass'))" by simp_all
  from fetch_states_body_inv_or_raise[OF i b] n show "slot_record_invariant sd'"
    by auto
next
  assume h: "(\<forall>(n, sd) \<in> set data. slot_record_invariant sd)
        \<and> fetch_states now hass data = (hass_end, data_end, r)
        \<and> \<not> (r = Some ServiceError \<and> ended_with_start (commands hass_end))"
  then have 1: "\<forall>(n, sd) \<in> set data. slot_record_invariant sd"
    and l: "fetch_states_loop now (map fst data) hass data = (hass_end, data_end, r)"
    and n: "\<not> (r = Some ServiceError \<and> ended_with_start (commands hass_end))"
    by (simp_all add: fetch_states_def)
  from fetch_states_loop_inv_or_raise[OF 1 l n]
  show "\<forall>(n, sd) \<in> set data_end. slot_record_invariant sd" .
qed

theorem slot_record_invariant_kept_witness:
  "(''charger1'', idle_record) \<in> set (get_consumer_config 45000000000 [charger1])
   \<and> slot_record_invariant idle_record
   \<and> service_raises (example_hass CAR_IS_CHARGING [] (\<lambda>service. service = ''start_charging''))
        GO_E ''start_charging'' ''charger1''
   \<and> snd (fetch_states_body 45000000000
             (example_hass CAR_IS_CHARGING [] (\<lambda>service. service = ''start_charging''))
             ''charger1'' idle_record) = (awaiting_start_record, Next)
   \<and> commands (fst (fetch_states_body 45000000000
             (example_hass CAR_IS_CHARGING [] (\<lambda>service. service = ''start_charging''))
             ''charger1'' idle_record)) = [Stop (Some GO_E) ''charger1'']
   \<and> Next \<noteq> Raise ServiceError
   \<and> slot_record_invariant awaiting_start_record
   \<and> snd first_tick = ([(''charger1'', awaiting_start_record)], None)
   \<and> list_all (\<lambda>(n, sd). slot_record_invariant sd) (fst (snd first_tick))"
proof -
  let ?h = "example_hass CAR_IS_CHARGING [] (\<lambda>service. service = ''start_charging'') :: int hass"
  let ?h1 = "(set_schedules ?h
         [\<lparr>VALUE = 50, START_TIME = 43200000000\<rparr>, \<lparr>VALUE = 51, START_TIME = 46800000000\<rparr>,
          \<lparr>VALUE = 52, START_TIME = 50400000000\<rparr>] ''charger1'')
        \<lparr>commands := [Stop (Some GO_E) ''charger1'']\<rparr>"
  let ?d = "get_consumer_config 45000000000 [charger1]"
  have m: "(''charger1'', idle_record) \<in> set ?d"
    by (simp add: gcc1 idle_record_def charger1_def)
  have t1: "\<forall>(n, sd) \<in> set ?d. slot_record_invariant sd"
    by (rule slot_record_invariant_kept[where created = 45000000000 and cs = "[charger1]"
          and hass = ?h, THEN conjunct1])
  from t1 m have i0: "slot_record_invariant idle_record" by blast
  have sr: "service_raises ?h GO_E ''start_charging'' ''charger1''"
    by (simp add: example_hass_simps)
  have b: "fetch_states_body 45000000000 ?h ''charger1'' idle_record
             = (?h1, awaiting_start_record, Next)"
    by (rule example_first_body) simp
  have n: "Next \<noteq> Raise ServiceError" by simp
  have pre2: "slot_record_invariant idle_record
        \<and> fetch_states_body 45000000000 ?h ''charger1'' idle_record
            = (?h1, awaiting_start_record, Next)
        \<and> \<not> (Next = Raise ServiceError \<and> ended_with_start (commands ?h1))"
    using i0 b n by blast
  have ia: "slot_record_invariant awaiting_start_record"
    by (rule slot_record_invariant_kept[where sd = idle_record and now = 45000000000
          and hass = ?h and consumer = "''charger1''" and hass' = ?h1
          and sd' = awaiting_start_record and fl = Next,
          THEN conjunct2, THEN conjunct1, THEN mp, OF pre2])
  obtain h2 where ft: "fetch_states 45000000000 ?h ?d = (h2, [(''charger1'', awaiting_start_record)], None)"
    using example_first_tick[of "\<lambda>service. service = ''start_charging''"] by simp
  have pre3: "(\<forall>(n, sd) \<in> set ?d. slot_record_invariant sd)
        \<and> fetch_states 45000000000 ?h ?d = (h2, [(''charger1'', awaiting_start_record)], None)
        \<and> \<not> (None = Some ServiceError \<and> ended_with_start (commands h2))"
    using t1 ft by blast
  have "\<forall>(n, sd) \<in> set [(''charger1'', awaiting_start_record)]. slot_record_invariant sd"
    by (rule slot_record_invariant_kept[where data = ?d and now = 45000000000 and hass = ?h
          and hass_end = h2 and data_end = "[(''charger1'', awaiting_start_record)]" and r = None,
          THEN conjunct2, THEN conjunct2, THEN mp, OF pre3])
  then have la: "list_all (\<lambda>(n, sd). slot_record_invariant sd) [(''charger1'', awaiting_start_record)]"
    by simp
  have f: "snd first_tick = ([(''charger1'', awaiting_start_record)], None)"
    by (simp add: first_tick_eq)
  have la': "list_all (\<lambda>(n, sd). slot_record_invariant sd) (fst (snd first_tick))"
    using la by (simp add: f)
  have sb: "snd (fetch_states_body 45000000000 ?h ''charger1'' idle_record) = (awaiting_start_record, Next)"
    by (simp add: b)
  have cb: "commands (fst (fetch_states_body 45000000000 ?h ''charger1'' idle_record))
              = [Stop (Some GO_E) ''charger1'']"
    by (simp add: b)
  show ?thesis using m i0 sr sb cb n ia f la' by blast
qed

text \<open>
  Two ticks from the record as built: the first stops the charging device and sets
  \<open>START_SCHEDULED_CHARGING\<close>; the second starts the head slot, and the start service call
  raises. The record then has both ends of the slot set and \<open>START_SCHEDULED_CHARGING\<close>
  still set.
\<close>

theorem raising_start_breaks_invariant_counterexample:
  "fst (snd first_tick) = [(''charger1'', awaiting_start_record)]
   \<and> snd (snd first_tick) = None
   \<and> slot_record_invariant awaiting_start_record
   \<and> fst (snd second_tick) =
       [(''charger1'', awaiting_start_record\<lparr>CURRENT_SCHEDULE_START := Some 43200000000,
                                             CURRENT_SCHEDULE_END := Some 46800000000\<rparr>)]
   \<and> snd (snd second_tick) = Some ServiceError
   \<and> \<not> slot_record_invariant
         (awaiting_start_record\<lparr>CURRENT_SCHEDULE_START := Some 43200000000,
                                CURRENT_SCHEDULE_END := Some 46800000000\<rparr>)"
  using second_tick_eq
  by (simp add: first_tick_eq slot_record_invariant_def awaiting_start_record_eq)

text \<open>
  C8: a consumer with an active slot, no start pending and \<open>now\<close> not later than
  \<open>CURRENT_SCHEDULE_END\<close>. If the device reports "Car is charging", the pass through the
  loop body calls no controller command and leaves the record as it is. With any other
  device status ("Charging finished, car can be disconnected" included), for an enabled
  consumer whose refreshed schedules are not empty, it calls \<open>stop_charging\<close> once and,
  unless that raises, clears both ends of the slot; \<open>START_SCHEDULED_CHARGING\<close> stays unset.
\<close>

theorem active_slot_before_end:
  fixes hass :: "('p::linorder) hass"
  assumes "CURRENT_SCHEDULE_START sd = Some a" and "CURRENT_SCHEDULE_END sd = Some e"
    and "\<not> START_SCHEDULED_CHARGING sd"
    and "now \<le> e"
  shows "(car_status_of hass consumer = CAR_IS_CHARGING \<longrightarrow>
            (case fetch_states_body now hass consumer sd of
               (hass', sd', fl) \<Rightarrow> commands hass' = commands hass \<and> sd' = sd))
       \<and> (car_status_of hass consumer \<noteq> CAR_IS_CHARGING
            \<and> ENABLED sd \<and> CHARGING_SCHEDULES_ENABLED sd
            \<and> calculate_next_schedules hass (car_status_of hass consumer) sd consumer
                = (hass1, Inr schedules)
            \<and> schedules \<noteq> [] \<longrightarrow>
            fetch_states_body now hass consumer sd =
              (hass1\<lparr>commands := commands hass @ [Stop (CONF_OUTPUT_SOURCE sd) consumer]\<rparr>,
               if stop_raises hass sd consumer then sd
               else sd\<lparr>CURRENT_SCHEDULE_START := None, CURRENT_SCHEDULE_END := None\<rparr>,
               if stop_raises hass sd consumer then Raise ServiceError else Next))"
proof (intro conjI impI)
  assume "car_status_of hass consumer = CAR_IS_CHARGING"
  then show "case fetch_states_body now hass consumer sd of
               (hass', sd', fl) \<Rightarrow> commands hass' = commands hass \<and> sd' = sd"
    using body_active_charging_no_action[OF assms(1,2,3,4)] by simp
next
  assume h: "car_status_of hass consumer \<noteq> CAR_IS_CHARGING
            \<and> ENABLED sd \<and> CHARGING_SCHEDULES_ENABLED sd
            \<and> calculate_next_schedules hass (car_status_of hass consumer) sd consumer
                = (hass1, Inr schedules)
            \<and> schedules \<noteq> []"
  then have a: "car_status_of hass consumer \<noteq> CAR_IS_CHARGING" and b: "ENABLED sd"
    and c: "CHARGING_SCHEDULES_ENABLED sd"
    and d: "calculate_next_schedules hass (car_status_of hass consumer) sd consumer
                = (hass1, Inr schedules)"
    and e: "schedules \<noteq> []" by simp_all
  show "fetch_states_body now hass consumer sd =
              (hass1\<lparr>commands := commands hass @ [Stop (CONF_OUTPUT_SOURCE sd) consumer]\<rparr>,
               if stop_raises hass sd consumer then sd
               else sd\<lparr>CURRENT_SCHEDULE_START := None, CURRENT_SCHEDULE_END := None\<rparr>,
               if stop_raises hass sd consumer then Raise ServiceError else Next)"
    unfolding body_not_charging[OF b c assms(3) a d e, of now] using assms(1) by simp
qed

theorem active_slot_before_end_witness:
  "CURRENT_SCHEDULE_START active_record = Some 43200000000
   \<and> CURRENT_SCHEDULE_END active_record = Some 46800000000
   \<and> \<not> START_SCHEDULED_CHARGING active_record
   \<and> (45000000000::int) \<le> 46800000000
   \<and> car_status_of (example_hass CAR_IS_CHARGING example_slots (\<lambda>_. False)) ''charger1''
       = CAR_IS_CHARGING
   \<and> commands (example_hass CAR_IS_CHARGING example_slots (\<lambda>_. False)) = []
   \<and> (case fetch_states_body 45000000000
              (example_hass CAR_IS_CHARGING example_slots (\<lambda>_. False)) ''charger1''
              active_record of
         (hass', sd', fl) \<Rightarrow> commands hass' = [] \<and> sd' = active_record)
   \<and> car_status_of (example_hass CHARGING_FINISHED example_slots (\<lambda>_. False)) ''charger1''
       = CHARGING_FINISHED
   \<and> CHARGING_FINISHED \<noteq> CAR_IS_CHARGING
   \<and> ENABLED active_record \<and> CHARGING_SCHEDULES_ENABLED active_record
   \<and> (case fetch_states_body 45000000000
              (example_hass CHARGING_FINISHED example_slots (\<lambda>_. False)) ''charger1''
              active_record of
         (hass', sd', fl) \<Rightarrow>
           commands hass' = [Stop (Some GO_E) ''charger1'']
           \<and> sd' = active_record\<lparr>CURRENT_SCHEDULE_START := None, CURRENT_SCHEDULE_END := None\<rparr>
           \<and> fl = Next)"
proof -
  let ?h = "example_hass CAR_IS_CHARGING example_slots (\<lambda>_. False)"
  let ?g = "example_hass CHARGING_FINISHED example_slots (\<lambda>_. False)"
  let ?sel = "[\<lparr>VALUE = 50::int, START_TIME = 43200000000\<rparr>, \<lparr>VALUE = 51, START_TIME = 46800000000\<rparr>,
           \<lparr>VALUE = 52, START_TIME = 50400000000\<rparr>]"
  have h1: "CURRENT_SCHEDULE_START active_record = Some 43200000000"
    and h2: "CURRENT_SCHEDULE_END active_record = Some 46800000000"
    and h3: "\<not> START_SCHEDULED_CHARGING active_record"
    and e1: "ENABLED active_record" and e2: "CHARGING_SCHEDULES_ENABLED active_record"
    by (simp_all add: active_record_eq)
  have h4: "(45000000000::int) \<le> 46800000000" by simp
  have h5: "car_status_of ?h ''charger1'' = CAR_IS_CHARGING" by (simp add: example_hass_simps)
  have h6: "commands ?h = []" by (simp add: example_hass_simps)
  have "case fetch_states_body 45000000000 ?h ''charger1'' active_record of
         (hass', sd', fl) \<Rightarrow> commands hass' = commands ?h \<and> sd' = active_record"
    by (rule active_slot_before_end[OF h1 h2 h3 h4, of ?h "''charger1''",
          THEN conjunct1, THEN mp, OF h5])
  then have c: "case fetch_states_body 45000000000 ?h ''charger1'' active_record of
         (hass', sd', fl) \<Rightarrow> commands hass' = [] \<and> sd' = active_record"
    by (simp only: h6)
  have g5: "car_status_of ?g ''charger1'' = CHARGING_FINISHED" by (simp add: example_hass_simps)
  have g5': "car_status_of ?g ''charger1'' \<noteq> CAR_IS_CHARGING" by (simp add: g5 status_neq)
  have g8: "calculate_next_schedules ?g (car_status_of ?g ''charger1'') active_record ''charger1''
       = (set_schedules ?g ?sel ''charger1'', Inr ?sel)"
    unfolding g5 by (rule example_refresh_ready)
  have g9: "?sel \<noteq> []" by simp
  have pre: "car_status_of ?g ''charger1'' \<noteq> CAR_IS_CHARGING
            \<and> ENABLED active_record \<and> CHARGING_SCHEDULES_ENABLED active_record
            \<and> calculate_next_schedules ?g (car_status_of ?g ''charger1'') active_record ''charger1''
                = (set_schedules ?g ?sel ''charger1'', Inr ?sel)
            \<and> ?sel \<noteq> []"
    using g5' e1 e2 g8 g9 by blast
  note r = active_slot_before_end[OF h1 h2 h3 h4, of ?g "''charger1''"
             "set_schedules ?g ?sel ''charger1''" ?sel, THEN conjunct2, THEN mp, OF pre]
  have d: "case fetch_states_body 45000000000 ?g ''charger1'' active_record of
         (hass', sd', fl) \<Rightarrow>
           commands hass' = [Stop (Some GO_E) ''charger1'']
           \<and> sd' = active_record\<lparr>CURRENT_SCHEDULE_START := None, CURRENT_SCHEDULE_END := None\<rparr>
           \<and> fl = Next"
    unfolding r by (simp add: stop_raises_def example_hass_simps active_record_eq)
  show ?thesis using h1 h2 h3 h4 h5 h6 c g5 status_neq e1 e2 d by blast
qed

text \<open>
  Inside its hour, with the device reporting "Charging finished, car can be disconnected",
  the slot is stopped and cleared.
\<close>

theorem active_slot_ready_device_counterexample:
  "CURRENT_SCHEDULE_START active_record = Some 43200000000
   \<and> CURRENT_SCHEDULE_END active_record = Some 46800000000
   \<and> \<not> START_SCHEDULED_CHARGING active_record
   \<and> (45000000000::int) \<le> 46800000000
   \<and> car_status_of (example_hass CHARGING_FINISHED example_slots (\<lambda>_. False)) ''charger1''
       = CHARGING_FINISHED
   \<and> commands (example_hass CHARGING_FINISHED example_slots (\<lambda>_. False)) = []
   \<and> (case fetch_states_body 45000000000
              (example_hass CHARGING_FINISHED example_slots (\<lambda>_. False)) ''charger1''
              active_record of
         (hass', sd', fl) \<Rightarrow>
           commands hass' = [Stop (Some GO_E) ''charger1'']
           \<and> CURRENT_SCHEDULE_START sd' = None \<and> CURRENT_SCHEDULE_END sd' = None
           \<and> \<not> START_SCHEDULED_CHARGING sd' \<and> fl = Next)"
proof -
  let ?h = "example_hass CHARGING_FINISHED example_slots (\<lambda>_. False)"
  have h1: "ENABLED active_record" and h2: "CHARGING_SCHEDULES_ENABLED active_record"
    and h3: "\<not> START_SCHEDULED_CHARGING active_record"
    and h4: "CURRENT_SCHEDULE_START active_record = Some 43200000000"
    and h5: "CURRENT_SCHEDULE_END active_record = Some 46800000000"
    by (simp_all add: active_record_eq)
  have h7: "car_status_of ?h ''charger1'' = CHARGING_FINISHED" by (simp add: example_hass_simps)
  have h7': "car_status_of ?h ''charger1'' \<noteq> CAR_IS_CHARGING" by (simp add: h7 status_neq)
  have h8: "calculate_next_schedules ?h (car_status_of ?h ''charger1'') active_record ''charger1''
       = (set_schedules ?h
          [\<lparr>VALUE = 50, START_TIME = 43200000000\<rparr>, \<lparr>VALUE = 51, START_TIME = 46800000000\<rparr>,
           \<lparr>VALUE = 52, START_TIME = 50400000000\<rparr>] ''charger1'',
        Inr [\<lparr>VALUE = 50, START_TIME = 43200000000\<rparr>, \<lparr>VALUE = 51, START_TIME = 46800000000\<rparr>,
           \<lparr>VALUE = 52, START_TIME = 50400000000\<rparr>])"
    unfolding h7 by (rule example_refresh_ready)
  have c: "(case fetch_states_body 45000000000 ?h ''charger1'' active_record of
         (hass', sd', fl) \<Rightarrow>
           commands hass' = [Stop (Some GO_E) ''charger1'']
           \<and> CURRENT_SCHEDULE_START sd' = None \<and> CURRENT_SCHEDULE_END sd' = None
           \<and> \<not> START_SCHEDULED_CHARGING sd' \<and> fl = Next)"
    unfolding body_not_charging[OF h1 h2 h3 h7' h8, of 45000000000, simplified]
    by (simp add: stop_raises_def example_hass_simps active_record_eq)
  show ?thesis using h3 h4 h5 h7 c by (simp add: example_hass_simps)
qed

text \<open>
  C9: what a failing controller command leaves behind. A start from the waiting state
  (device ready, \<open>now\<close> inside the head slot's hour) always records the call, removes the
  head slot and sets both ends of the slot; \<open>START_SCHEDULED_CHARGING\<close> is cleared when the
  controller returns (also when it only logs that the output source is not supported), and
  stays set, the exception leaving the tick, when the service call raises. A stop issued
  for a charging device without an active slot sets \<open>START_SCHEDULED_CHARGING\<close> when the
  controller returns, and leaves the record unchanged when the service call raises.
\<close>

theorem command_failure_outcome:
  fixes hass :: "('p::linorder) hass"
  shows
  "(ENABLED sd \<and> CHARGING_SCHEDULES_ENABLED sd \<and> START_SCHEDULED_CHARGING sd
      \<and> car_status_of hass consumer = CHARGING_FINISHED
      \<and> get_schedules hass consumer = s # rest
      \<and> START_TIME s < now \<and> now < START_TIME s + timedelta_hours 1 \<longrightarrow>
      (case fetch_states_body now hass consumer sd of
         (hass', sd', fl) \<Rightarrow>
           commands hass' = commands hass @ [Start (CONF_OUTPUT_SOURCE sd) consumer]
           \<and> get_schedules hass' consumer = rest
           \<and> CURRENT_SCHEDULE_START sd' = Some (START_TIME s)
           \<and> CURRENT_SCHEDULE_END sd' = Some (START_TIME s + timedelta_hours 1)
           \<and> (if CONF_OUTPUT_SOURCE sd = Some GO_E
                  \<and> service_raises hass GO_E ''start_charging'' consumer
               then START_SCHEDULED_CHARGING sd' \<and> fl = Raise ServiceError
               else \<not> START_SCHEDULED_CHARGING sd' \<and> fl = Next)))
   \<and> (ENABLED sd \<and> CHARGING_SCHEDULES_ENABLED sd \<and> \<not> START_SCHEDULED_CHARGING sd
      \<and> CURRENT_SCHEDULE_START sd = None \<and> CURRENT_SCHEDULE_END sd = None
      \<and> car_status_of hass consumer = CAR_IS_CHARGING
      \<and> calculate_next_schedules hass CAR_IS_CHARGING sd consumer = (hass1, Inr schedules)
      \<and> schedules \<noteq> [] \<longrightarrow>
      (case fetch_states_body now hass consumer sd of
         (hass', sd', fl) \<Rightarrow>
           commands hass' = commands hass @ [Stop (CONF_OUTPUT_SOURCE sd) consumer]
           \<and> (if CONF_OUTPUT_SOURCE sd = Some GO_E
                  \<and> service_raises hass GO_E ''stop_charging'' consumer
               then sd' = sd \<and> fl = Raise ServiceError
               else sd' = sd\<lparr>START_SCHEDULED_CHARGING := True\<rparr> \<and> fl = Next)))"
proof (intro conjI impI)
  assume h: "ENABLED sd \<and> CHARGING_SCHEDULES_ENABLED sd \<and> START_SCHEDULED_CHARGING sd
      \<and> car_status_of hass consumer = CHARGING_FINISHED
      \<and> get_schedules hass consumer = s # rest
      \<and> START_TIME s < now \<and> now < START_TIME s + timedelta_hours 1"
  then have b: "fetch_states_body now hass consumer sd =
     ((set_schedules hass rest consumer)
        \<lparr>commands := commands hass @ [Start (CONF_OUTPUT_SOURCE sd) consumer]\<rparr>,
      sd\<lparr>CURRENT_SCHEDULE_START := Some (START_TIME s),
         CURRENT_SCHEDULE_END := Some (START_TIME s + timedelta_hours 1),
         START_SCHEDULED_CHARGING := start_raises hass sd consumer\<rparr>,
      if start_raises hass sd consumer then Raise ServiceError else Next)"
    using body_confirmed_start[of sd hass consumer s rest now] by blast
  show "case fetch_states_body now hass consumer sd of
         (hass', sd', fl) \<Rightarrow>
           commands hass' = commands hass @ [Start (CONF_OUTPUT_SOURCE sd) consumer]
           \<and> get_schedules hass' consumer = rest
           \<and> CURRENT_SCHEDULE_START sd' = Some (START_TIME s)
           \<and> CURRENT_SCHEDULE_END sd' = Some (START_TIME s + timedelta_hours 1)
           \<and> (if CONF_OUTPUT_SOURCE sd = Some GO_E
                  \<and> service_raises hass GO_E ''start_charging'' consumer
               then START_SCHEDULED_CHARGING sd' \<and> fl = Raise ServiceError
               else \<not> START_SCHEDULED_CHARGING sd' \<and> fl = Next)"
    unfolding b by (simp add: start_raises_def get_schedules_def set_schedules_def)
next
  assume h: "ENABLED sd \<and> CHARGING_SCHEDULES_ENABLED sd \<and> \<not> START_SCHEDULED_CHARGING sd
      \<and> CURRENT_SCHEDULE_START sd = None \<and> CURRENT_SCHEDULE_END sd = None
      \<and> car_status_of hass consumer = CAR_IS_CHARGING
      \<and> calculate_next_schedules hass CAR_IS_CHARGING sd consumer = (hass1, Inr schedules)
      \<and> schedules \<noteq> []"
  then have b: "fetch_states_body now hass consumer sd =
     (hass1\<lparr>commands := commands hass @ [Stop (CONF_OUTPUT_SOURCE sd) consumer]\<rparr>,
      if stop_raises hass sd consumer then sd else sd\<lparr>START_SCHEDULED_CHARGING := True\<rparr>,
      if stop_raises hass sd consumer then Raise ServiceError else Next)"
    using body_idle_charging[of sd hass consumer hass1 schedules now] by blast
  show "case fetch_states_body now hass consumer sd of
         (hass', sd', fl) \<Rightarrow>
           commands hass' = commands hass @ [Stop (CONF_OUTPUT_SOURCE sd) consumer]
           \<and> (if CONF_OUTPUT_SOURCE sd = Some GO_E
                  \<and> service_raises hass GO_E ''stop_charging'' consumer
               then sd' = sd \<and> fl = Raise ServiceError
               else sd' = sd\<lparr>START_SCHEDULED_CHARGING := True\<rparr> \<and> fl = Next)"
    unfolding b by (simp add: stop_raises_def)
qed

theorem command_failure_outcome_witness:
  "ENABLED awaiting_start_record \<and> CHARGING_SCHEDULES_ENABLED awaiting_start_record
   \<and> START_SCHEDULED_CHARGING awaiting_start_record
   \<and> car_status_of (example_hass CHARGING_FINISHED example_slots (\<lambda>_. True)) ''charger1''
       = CHARGING_FINISHED
   \<and> get_schedules (example_hass CHARGING_FINISHED example_slots (\<lambda>_. True)) ''charger1''
       = \<lparr>VALUE = 50, START_TIME = 43200000000\<rparr> # [\<lparr>VALUE = 51, START_TIME = 46800000000\<rparr>]
   \<and> START_TIME \<lparr>VALUE = 50::int, START_TIME = 43200000000\<rparr> < 45000000000
   \<and> 45000000000 < START_TIME \<lparr>VALUE = 50::int, START_TIME = 43200000000\<rparr> + timedelta_hours 1
   \<and> CONF_OUTPUT_SOURCE awaiting_start_record = Some GO_E
   \<and> service_raises (example_hass CHARGING_FINISHED example_slots (\<lambda>_. True)) GO_E
        ''start_charging'' ''charger1''
   \<and> (case fetch_states_body 45000000000
              (example_hass CHARGING_FINISHED example_slots (\<lambda>_. True)) ''charger1''
              awaiting_start_record of
         (hass', sd', fl) \<Rightarrow>
           commands hass' = [Start (Some GO_E) ''charger1'']
           \<and> get_schedules hass' ''charger1'' = [\<lparr>VALUE = 51, START_TIME = 46800000000\<rparr>]
           \<and> CURRENT_SCHEDULE_START sd' = Some 43200000000
           \<and> CURRENT_SCHEDULE_END sd' = Some 46800000000
           \<and> START_SCHEDULED_CHARGING sd' \<and> fl = Raise ServiceError)
   \<and> ENABLED unsupported_record \<and> CHARGING_SCHEDULES_ENABLED unsupported_record
   \<and> START_SCHEDULED_CHARGING unsupported_record
   \<and> CONF_OUTPUT_SOURCE unsupported_record = Some ''other_charger''
   \<and> (case fetch_states_body 45000000000
              (example_hass CHARGING_FINISHED example_slots (\<lambda>_. True)) ''charger1''
              unsupported_record of
         (hass', sd', fl) \<Rightarrow>
           commands hass' = [Start (Some ''other_charger'') ''charger1'']
           \<and> get_schedules hass' ''charger1'' = [\<lparr>VALUE = 51, START_TIME = 46800000000\<rparr>]
           \<and> CURRENT_SCHEDULE_START sd' = Some 43200000000
           \<and> CURRENT_SCHEDULE_END sd' = Some 46800000000
           \<and> \<not> START_SCHEDULED_CHARGING sd' \<and> fl = Next)"
proof -
  let ?h = "example_hass CHARGING_FINISHED example_slots (\<lambda>_. True)"
  let ?s = "\<lparr>VALUE = 50::int, START_TIME = 43200000000\<rparr>"
  let ?rest = "[\<lparr>VALUE = 51::int, START_TIME = 46800000000\<rparr>]"
  have a1: "ENABLED awaiting_start_record" and a2: "CHARGING_SCHEDULES_ENABLED awaiting_start_record"
    and a3: "START_SCHEDULED_CHARGING awaiting_start_record"
    and a4: "CONF_OUTPUT_SOURCE awaiting_start_record = Some GO_E"
    by (simp_all add: awaiting_start_record_eq)
  have u1: "ENABLED unsupported_record" and u2: "CHARGING_SCHEDULES_ENABLED unsupported_record"
    and u3: "START_SCHEDULED_CHARGING unsupported_record"
    and u4: "CONF_OUTPUT_SOURCE unsupported_record = Some ''other_charger''"
    by (simp_all add: unsupported_record_eq)
  have u5: "CONF_OUTPUT_SOURCE unsupported_record \<noteq> Some GO_E"
    by (simp add: u4 GO_E_def)
  have h4: "car_status_of ?h ''charger1'' = CHARGING_FINISHED"
    by (simp add: example_hass_simps)
  have h5: "get_schedules ?h ''charger1'' = ?s # ?rest"
    by (simp add: example_hass_simps example_slots_def)
  have h8: "service_raises ?h GO_E ''start_charging'' ''charger1''"
    by (simp add: example_hass_simps)
  have h9: "commands ?h = []" by (simp add: example_hass_simps)
  have pa: "ENABLED awaiting_start_record \<and> CHARGING_SCHEDULES_ENABLED awaiting_start_record
      \<and> START_SCHEDULED_CHARGING awaiting_start_record
      \<and> car_status_of ?h ''charger1'' = CHARGING_FINISHED
      \<and> get_schedules ?h ''charger1'' = ?s # ?rest
      \<and> START_TIME ?s < 45000000000 \<and> 45000000000 < START_TIME ?s + timedelta_hours 1"
    using a1 a2 a3 h4 h5 example_window(1,2) by blast
  have pu: "ENABLED unsupported_record \<and> CHARGING_SCHEDULES_ENABLED unsupported_record
      \<and> START_SCHEDULED_CHARGING unsupported_record
      \<and> car_status_of ?h ''charger1'' = CHARGING_FINISHED
      \<and> get_schedules ?h ''charger1'' = ?s # ?rest
      \<and> START_TIME ?s < 45000000000 \<and> 45000000000 < START_TIME ?s + timedelta_hours 1"
    using u1 u2 u3 h4 h5 example_window(1,2) by blast
  have ca: "case fetch_states_body 45000000000 ?h ''charger1'' awaiting_start_record of
         (hass', sd', fl) \<Rightarrow>
           commands hass' = [Start (Some GO_E) ''charger1'']
           \<and> get_schedules hass' ''charger1'' = ?rest
           \<and> CURRENT_SCHEDULE_START sd' = Some 43200000000
           \<and> CURRENT_SCHEDULE_END sd' = Some 46800000000
           \<and> START_SCHEDULED_CHARGING sd' \<and> fl = Raise ServiceError"
    using command_failure_outcome[of awaiting_start_record ?h "''charger1''" ?s ?rest 45000000000,
            THEN conjunct1, THEN mp, OF pa]
    by (simp add: a4 h8 h9 timedelta_hours_def usec_per_hour_def usec_per_second_def split: prod.splits)
  have cu: "case fetch_states_body 45000000000 ?h ''charger1'' unsupported_record of
         (hass', sd', fl) \<Rightarrow>
           commands hass' = [Start (Some ''other_charger'') ''charger1'']
           \<and> get_schedules hass' ''charger1'' = ?rest
           \<and> CURRENT_SCHEDULE_START sd' = Some 43200000000
           \<and> CURRENT_SCHEDULE_END sd' = Some 46800000000
           \<and> \<not> START_SCHEDULED_CHARGING sd' \<and> fl = Next"
    using command_failure_outcome[of unsupported_record ?h "''charger1''" ?s ?rest 45000000000,
            THEN conjunct1, THEN mp, OF pu]
    by (simp add: u4 h9 GO_E_def timedelta_hours_def usec_per_hour_def usec_per_second_def split: prod.splits)
  show ?thesis using a1 a2 a3 a4 h4 h5 h8 example_window(1,2) ca u1 u2 u3 u4 cu by blast
qed

text \<open>
  The same start, once with a service call that raises and once with one that returns:
  only the second clears \<open>START_SCHEDULED_CHARGING\<close>.
\<close>

theorem failed_start_keeps_pending_counterexample:
  "ENABLED awaiting_start_record \<and> CHARGING_SCHEDULES_ENABLED awaiting_start_record
   \<and> START_SCHEDULED_CHARGING awaiting_start_record
   \<and> car_status_of (example_hass CHARGING_FINISHED example_slots (\<lambda>_. True)) ''charger1''
       = CHARGING_FINISHED
   \<and> get_schedules (example_hass CHARGING_FINISHED example_slots (\<lambda>_. True)) ''charger1''
       = \<lparr>VALUE = 50, START_TIME = 43200000000\<rparr> # [\<lparr>VALUE = 51, START_TIME = 46800000000\<rparr>]
   \<and> (case fetch_states_body 45900000000
              (example_hass CHARGING_FINISHED example_slots (\<lambda>_. True)) ''charger1''
              awaiting_start_record of
         (hass', sd', fl) \<Rightarrow>
           commands hass' = [Start (Some GO_E) ''charger1'']
           \<and> START_SCHEDULED_CHARGING sd' \<and> fl = Raise ServiceError)
   \<and> (case fetch_states_body 45900000000
              (example_hass CHARGING_FINISHED example_slots (\<lambda>_. False)) ''charger1''
              awaiting_start_record of
         (hass', sd', fl) \<Rightarrow>
           commands hass' = [Start (Some GO_E) ''charger1'']
           \<and> \<not> START_SCHEDULED_CHARGING sd' \<and> fl = Next)"
proof -
  let ?h = "example_hass CHARGING_FINISHED example_slots (\<lambda>_. True)"
  let ?g = "example_hass CHARGING_FINISHED example_slots (\<lambda>_. False)"
  let ?s = "\<lparr>VALUE = 50::int, START_TIME = 43200000000\<rparr>"
  let ?rest = "[\<lparr>VALUE = 51::int, START_TIME = 46800000000\<rparr>]"
  have a1: "ENABLED awaiting_start_record" and a2: "CHARGING_SCHEDULES_ENABLED awaiting_start_record"
    and a3: "START_SCHEDULED_CHARGING awaiting_start_record"
    by (simp_all add: awaiting_start_record_eq)
  have h4: "car_status_of ?h ''charger1'' = CHARGING_FINISHED"
    and g4: "car_status_of ?g ''charger1'' = CHARGING_FINISHED"
    by (simp_all add: example_hass_simps)
  have h5: "get_schedules ?h ''charger1'' = ?s # ?rest"
    and g5: "get_schedules ?g ''charger1'' = ?s # ?rest"
    by (simp_all add: example_hass_simps example_slots_def)
  have w1: "START_TIME ?s < 45900000000" by simp
  have w2: "45900000000 < START_TIME ?s + timedelta_hours 1"
    by (simp add: timedelta_hours_def usec_per_hour_def usec_per_second_def)
  have c: "case fetch_states_body 45900000000 ?h ''charger1'' awaiting_start_record of
         (hass', sd', fl) \<Rightarrow>
           commands hass' = [Start (Some GO_E) ''charger1'']
           \<and> START_SCHEDULED_CHARGING sd' \<and> fl = Raise ServiceError"
    unfolding body_confirmed_start[OF a1 a2 a3 h4 h5 w1 w2]
    by (simp add: start_raises_def example_hass_simps awaiting_start_record_eq)
  have d: "case fetch_states_body 45900000000 ?g ''charger1'' awaiting_start_record of
         (hass', sd', fl) \<Rightarrow>
           commands hass' = [Start (Some GO_E) ''charger1'']
           \<and> \<not> START_SCHEDULED_CHARGING sd' \<and> fl = Next"
    unfolding body_confirmed_start[OF a1 a2 a3 g4 g5 w1 w2]
    by (simp add: start_raises_def example_hass_simps awaiting_start_record_eq)
  show ?thesis using a1 a2 a3 h4 h5 c d by blast
qed

text \<open>
  C10: a consumer configured in another mode than SIMPLE, without \<open>hours_to_charge\<close> and
  with a non-zero window, gets the quota \<open>None\<close> and the deadline \<open>now\<close> plus the window. For
  a record with the quota \<open>None\<close> and a deadline \<open>d\<close>, a refresh of the schedules selects
  every forecast entry that starts no later than \<open>d\<close>, by price ascending and then by start
  time ascending: the selection is a permutation of the eligible entries in that order.
\<close>

theorem null_quota_selects_all_eligible:
  fixes hass :: "('p::linorder) hass"
  shows
  "(smart_energy_mode c \<noteq> Some SIMPLE \<and> hours_to_charge c = None
      \<and> charging_time_window_hours c = Some w \<and> w \<noteq> 0 \<longrightarrow>
      CURRENT_CYCLE_HOURS_TO_CHARGE (consumer_record created c) = None
      \<and> CURRENT_CYCLE_CHARGING_TIME_WINDOW_DATE (consumer_record created c)
          = Some (created + timedelta_hours w))
   \<and> (CURRENT_CYCLE_HOURS_TO_CHARGE sd = None
      \<and> CURRENT_CYCLE_CHARGING_TIME_WINDOW_DATE sd = Some d
      \<and> ((car_status \<noteq> CAR_IS_CHARGING \<and> \<not> START_SCHEDULED_CHARGING sd)
          \<or> get_schedules hass consumer = []) \<longrightarrow>
      (let el = eligible d (case FORECAST hass of None \<Rightarrow> [] | Some prices \<Rightarrow> prices);
           sel = sort_key slot_key el
       in calculate_next_schedules hass car_status sd consumer
            = (set_schedules hass sel consumer, Inr sel)
          \<and> sorted_wrt price_then_time sel \<and> mset sel = mset el
          \<and> length sel = length el))"
proof (intro conjI impI)
  assume "smart_energy_mode c \<noteq> Some SIMPLE \<and> hours_to_charge c = None
      \<and> charging_time_window_hours c = Some w \<and> w \<noteq> 0"
  then show "CURRENT_CYCLE_HOURS_TO_CHARGE (consumer_record created c) = None"
    and "CURRENT_CYCLE_CHARGING_TIME_WINDOW_DATE (consumer_record created c)
          = Some (created + timedelta_hours w)"
    by (simp_all add: consumer_record_def Let_def calculate_next_time_window_def)
next
  assume h: "CURRENT_CYCLE_HOURS_TO_CHARGE sd = None
      \<and> CURRENT_CYCLE_CHARGING_TIME_WINDOW_DATE sd = Some d
      \<and> ((car_status \<noteq> CAR_IS_CHARGING \<and> \<not> START_SCHEDULED_CHARGING sd)
          \<or> get_schedules hass consumer = [])"
  then have q: "CURRENT_CYCLE_HOURS_TO_CHARGE sd = None"
    and d: "CURRENT_CYCLE_CHARGING_TIME_WINDOW_DATE sd = Some d"
    and r: "(car_status \<noteq> CAR_IS_CHARGING \<and> \<not> START_SCHEDULED_CHARGING sd)
          \<or> get_schedules hass consumer = []" by simp_all
  show "let el = eligible d (case FORECAST hass of None \<Rightarrow> [] | Some prices \<Rightarrow> prices);
           sel = sort_key slot_key el
       in calculate_next_schedules hass car_status sd consumer
            = (set_schedules hass sel consumer, Inr sel)
          \<and> sorted_wrt price_then_time sel \<and> mset sel = mset el
          \<and> length sel = length el"
    using calculate_next_schedules_refresh[OF r d] q
    by (simp add: Let_def slice_from_start_def sort_key_price_then_time)
qed


theorem null_quota_selects_all_eligible_witness:
  "smart_energy_mode null_quota_config \<noteq> Some SIMPLE
   \<and> hours_to_charge null_quota_config = None
   \<and> charging_time_window_hours null_quota_config = Some 2 \<and> (2::int) \<noteq> 0
   \<and> CURRENT_CYCLE_HOURS_TO_CHARGE (consumer_record 46800000000 null_quota_config) = None
   \<and> CURRENT_CYCLE_CHARGING_TIME_WINDOW_DATE (consumer_record 46800000000 null_quota_config)
       = Some 54000000000
   \<and> get_schedules ranking_hass ''charger2'' = []
   \<and> FORECAST ranking_hass = Some ranking_forecast
   \<and> length ranking_forecast = 5
   \<and> eligible 54000000000 ranking_forecast =
        [\<lparr>VALUE = 55, START_TIME = 43200000000\<rparr>, \<lparr>VALUE = 50, START_TIME = 50400000000\<rparr>,
         \<lparr>VALUE = 50, START_TIME = 46800000000\<rparr>, \<lparr>VALUE = 60, START_TIME = 54000000000\<rparr>]
   \<and> snd (calculate_next_schedules ranking_hass []
             (consumer_record 46800000000 null_quota_config) ''charger2'')
       = Inr [\<lparr>VALUE = 50, START_TIME = 46800000000\<rparr>, \<lparr>VALUE = 50, START_TIME = 50400000000\<rparr>,
              \<lparr>VALUE = 55, START_TIME = 43200000000\<rparr>, \<lparr>VALUE = 60, START_TIME = 54000000000\<rparr>]"
proof -
  let ?sd = "consumer_record 46800000000 null_quota_config"
  have m: "smart_energy_mode null_quota_config \<noteq> Some SIMPLE"
    and q: "hours_to_charge null_quota_config = None"
    and w: "charging_time_window_hours null_quota_config = Some 2"
    by (simp_all add: null_quota_config_def SIMPLE_def)
  have z: "(2::int) \<noteq> 0" by simp
  have pre1: "smart_energy_mode null_quota_config \<noteq> Some SIMPLE
      \<and> hours_to_charge null_quota_config = None
      \<and> charging_time_window_hours null_quota_config = Some 2 \<and> (2::int) \<noteq> 0"
    using m q w z by blast
  note p1 = null_quota_selects_all_eligible[where c = null_quota_config and w = 2
              and created = 46800000000 and hass = ranking_hass,
              THEN conjunct1, THEN mp, OF pre1]
  from p1 have n: "CURRENT_CYCLE_HOURS_TO_CHARGE ?sd = None" by blast
  from p1 have d: "CURRENT_CYCLE_CHARGING_TIME_WINDOW_DATE ?sd = Some 54000000000"
    by (simp add: timedelta_hours_def usec_per_hour_def usec_per_second_def)
  have g: "get_schedules ranking_hass ''charger2'' = []"
    by (simp add: ranking_hass_def get_schedules_def example_hass_def)
  have l: "length ranking_forecast = 5" by (simp add: ranking_forecast_def)
  have pre2: "CURRENT_CYCLE_HOURS_TO_CHARGE ?sd = None
      \<and> CURRENT_CYCLE_CHARGING_TIME_WINDOW_DATE ?sd = Some 54000000000
      \<and> (([] \<noteq> CAR_IS_CHARGING \<and> \<not> START_SCHEDULED_CHARGING ?sd)
          \<or> get_schedules ranking_hass ''charger2'' = [])"
    using n d g by blast
  have c: "snd (calculate_next_schedules ranking_hass [] ?sd ''charger2'')
       = Inr [\<lparr>VALUE = 50, START_TIME = 46800000000\<rparr>, \<lparr>VALUE = 50, START_TIME = 50400000000\<rparr>,
              \<lparr>VALUE = 55, START_TIME = 43200000000\<rparr>, \<lparr>VALUE = 60, START_TIME = 54000000000\<rparr>]"
    using null_quota_selects_all_eligible[where sd = ?sd and d = 54000000000
              and car_status = "[]" and hass = ranking_hass and consumer = "''charger2''",
              THEN conjunct2, THEN mp, OF pre2]
    unfolding Let_def ranking_hass_eligible ranking_sorted by simp
  show ?thesis using m q w z n d g ranking_hass_simps(1) l ranking_eligible c by blast
qed

text \<open>
  A consumer configured without \<open>hours_to_charge\<close> and without a window has no deadline,
  and a refresh over a forecast that is not empty raises \<open>TypeError\<close>.
\<close>

theorem null_deadline_refresh_counterexample:
  "smart_energy_mode no_window_config = Some PRECISE
   \<and> hours_to_charge no_window_config = None
   \<and> CURRENT_CYCLE_HOURS_TO_CHARGE (consumer_record 45000000000 no_window_config) = None
   \<and> CURRENT_CYCLE_CHARGING_TIME_WINDOW_DATE (consumer_record 45000000000 no_window_config) = None
   \<and> FORECAST (example_hass CHARGING_FINISHED [] (\<lambda>_. False)) = Some example_forecast
   \<and> length example_forecast = 3
   \<and> snd (calculate_next_schedules (example_hass CHARGING_FINISHED [] (\<lambda>_. False)) []
             (consumer_record 45000000000 no_window_config) ''charger3'')
       = Inl TypeError"
proof -
  let ?sd = "consumer_record 45000000000 no_window_config"
  let ?h = "example_hass CHARGING_FINISHED [] (\<lambda>_. False)"
  have m: "smart_energy_mode no_window_config = Some PRECISE"
    and q: "hours_to_charge no_window_config = None"
    by (simp_all add: no_window_config_def PRECISE_def)
  have n: "CURRENT_CYCLE_HOURS_TO_CHARGE ?sd = None"
    and d: "CURRENT_CYCLE_CHARGING_TIME_WINDOW_DATE ?sd = None"
    and f: "\<not> START_SCHEDULED_CHARGING ?sd"
    by (simp_all add: consumer_record_def no_window_config_def Let_def SIMPLE_def
        calculate_next_time_window_def)
  have l: "length example_forecast = 3" by (simp add: example_forecast_def)
  have ff: "find_forecast_dates ?h None = Inl TypeError"
    by (simp add: find_forecast_dates_def example_hass_simps example_forecast_def)
  have c: "snd (calculate_next_schedules ?h [] ?sd ''charger3'') = Inl TypeError"
    using f by (simp add: calculate_next_schedules_def Let_def d ff CAR_IS_CHARGING_def)
  show ?thesis using m q n d l c by (simp add: example_hass_simps)
qed

end
